theory Spec2Isabelle
  imports Main
begin

section \<open>Errors raised by the server\<close>

text \<open>
  Every \<^verbatim>\<open>throw new Error(...)\<close> of the TypeScript sources is one constructor, carrying
  the interpolated name or index of its message. \<open>IOFailure\<close> is an exception raised by the
  file system or by \<^verbatim>\<open>gdtools.saveProject\<close>; \<open>LibraryFault\<close> stands for a call into the
  native GDCore library outside the domain its interface documents.
\<close>

datatype error =
    SessionNotFound string
  | SessionExists string
  | LayoutNotFound string
  | LayoutExists string
  | ObjectNotFound string
  | ObjectExists string
  | ExternalEventsNotFound string
  | MustSpecifyTarget
  | EventIndexOutOfBounds int
  | EventNoConditions
  | EventNoActions
  | IOFailure string
  | LibraryFault

section \<open>The project document\<close>

text \<open>
  The document lives inside GDCore; \<^verbatim>\<open>src/types/gdcore.ts\<close> declares its interface only.
  The records below hold the fields that the modelled operations read or write. JavaScript
  numbers are restricted to integers.
\<close>

record instruction =
  itype :: string
  inverted :: bool
  parameters :: "string list"

datatype event = Event
  (etype: string)
  (disabled: bool)
  (folded: bool)
  (conditions: "instruction list option")
  (actions: "instruction list option")
  (canHaveSubEvents: bool)
  (subEvents: "event list")

record gdobject =
  oname :: string
  otype :: string

record initial_instance =
  objectName :: string
  posX :: int
  posY :: int
  posZ :: int
  layer :: string
  angle :: int
  zOrder :: int

record layout =
  lname :: string
  objects :: "gdobject list"
  instances :: "initial_instance list"
  events :: "event list"

record project =
  pname :: string
  version :: string
  description :: string
  author :: string
  packageName :: string
  windowWidth :: int
  windowHeight :: int
  maxFPS :: int
  minFPS :: int
  firstLayout :: string
  layouts :: "layout list"
  globalObjects :: "gdobject list"
  externalEvents :: "(string \<times> event list) list"

subsection \<open>List helpers for name-addressed containers\<close>

fun update_first :: "('a \<Rightarrow> bool) \<Rightarrow> ('a \<Rightarrow> 'a) \<Rightarrow> 'a list \<Rightarrow> 'a list" where
  "update_first P f [] = []"
| "update_first P f (x # xs) = (if P x then f x # xs else x # update_first P f xs)"

fun remove_first :: "('a \<Rightarrow> bool) \<Rightarrow> 'a list \<Rightarrow> 'a list" where
  "remove_first P [] = []"
| "remove_first P (x # xs) = (if P x then xs else x # remove_first P xs)"

definition insert_at :: "int \<Rightarrow> 'a \<Rightarrow> 'a list \<Rightarrow> 'a list" where
  "insert_at pos v xs =
     (if 0 \<le> pos \<and> pos < int (length xs)
      then take (nat pos) xs @ v # drop (nat pos) xs
      else xs @ [v])"

subsection \<open>GDCore operations on layouts of a project\<close>

text \<open>Modelled from the spec: GDCore's \<^verbatim>\<open>Project.hasLayoutNamed\<close> (only its type
  declaration is in the sources); scenes are an ordered list addressed by name.\<close>

definition hasLayoutNamed :: "project \<Rightarrow> string \<Rightarrow> bool" where
  "hasLayoutNamed p n = (n \<in> set (map lname (layouts p)))"

text \<open>Modelled from the spec: GDCore's \<^verbatim>\<open>Project.insertNewLayout\<close>; the scene is inserted
  at the given position, or appended when the position is not an index of the list. The new
  scene is empty.\<close>

definition insertNewLayout :: "string \<Rightarrow> int \<Rightarrow> project \<Rightarrow> project" where
  "insertNewLayout n pos p =
     p\<lparr>layouts := insert_at pos \<lparr>lname = n, objects = [], instances = [], events = []\<rparr> (layouts p)\<rparr>"

text \<open>Modelled from the spec: GDCore's \<^verbatim>\<open>Project.removeLayout\<close>; the scene of that name
  is removed, nothing else of the document changes.\<close>

definition removeLayout :: "string \<Rightarrow> project \<Rightarrow> project" where
  "removeLayout n p = p\<lparr>layouts := remove_first (\<lambda>l. lname l = n) (layouts p)\<rparr>"

text \<open>Modelled from the spec: \<^verbatim>\<open>project.getLayout(n)\<close> hands out a reference to the scene
  named \<open>n\<close>; a mutation through that reference is an update of that scene in place.\<close>

definition modifyLayout :: "string \<Rightarrow> (layout \<Rightarrow> layout) \<Rightarrow> project \<Rightarrow> project" where
  "modifyLayout n f p = p\<lparr>layouts := update_first (\<lambda>l. lname l = n) f (layouts p)\<rparr>"

section \<open>ProjectSession\<close>

record session =
  sid :: string
  project :: project
  projectPath :: string
  dirty :: bool
  createdAt :: nat
  lastModifiedAt :: nat

text \<open>
  A method of the session returns its outcome together with the session after the call, so
  that what a raised error leaves behind is part of the model. \<open>now\<close> is the value of
  \<^verbatim>\<open>new Date()\<close> at the call.
\<close>

definition markDirty :: "nat \<Rightarrow> session \<Rightarrow> session" where
  "markDirty now s = s\<lparr>dirty := True, lastModifiedAt := now\<rparr>"

definition isDirty :: "session \<Rightarrow> bool" where
  "isDirty s = dirty s"

definition getLayoutCount :: "session \<Rightarrow> int" where
  "getLayoutCount s = int (length (layouts (project s)))"

definition hasLayout :: "session \<Rightarrow> string \<Rightarrow> bool" where
  "hasLayout s n = hasLayoutNamed (project s) n"

definition getLayout :: "session \<Rightarrow> string \<Rightarrow> error + layout" where
  "getLayout s n =
     (if \<not> hasLayout s n then Inl (LayoutNotFound n)
      else case find (\<lambda>l. lname l = n) (layouts (project s)) of
             Some l \<Rightarrow> Inr l
           | None \<Rightarrow> Inl LibraryFault)"

definition createLayout :: "string \<Rightarrow> int option \<Rightarrow> nat \<Rightarrow> session \<Rightarrow> (error + unit) \<times> session" where
  "createLayout n position now s =
     (if hasLayout s n then (Inl (LayoutExists n), s)
      else let pos = (case position of Some k \<Rightarrow> k | None \<Rightarrow> getLayoutCount s)
           in (Inr (), markDirty now (s\<lparr>project := insertNewLayout n pos (project s)\<rparr>)))"

definition deleteLayout :: "string \<Rightarrow> nat \<Rightarrow> session \<Rightarrow> (error + unit) \<times> session" where
  "deleteLayout n now s =
     (if \<not> hasLayout s n then (Inl (LayoutNotFound n), s)
      else (Inr (), markDirty now (s\<lparr>project := removeLayout n (project s)\<rparr>)))"

definition renameLayout :: "string \<Rightarrow> string \<Rightarrow> nat \<Rightarrow> session \<Rightarrow> (error + unit) \<times> session" where
  "renameLayout currentName newName now s =
     (if \<not> hasLayout s currentName then (Inl (LayoutNotFound currentName), s)
      else if hasLayout s newName then (Inl (LayoutExists newName), s)
      else let p1 = modifyLayout currentName (\<lambda>l. l\<lparr>lname := newName\<rparr>) (project s);
               p2 = (if firstLayout p1 = currentName then p1\<lparr>firstLayout := newName\<rparr> else p1)
           in (Inr (), markDirty now (s\<lparr>project := p2\<rparr>)))"

section \<open>Tool handlers of the server: project settings and scenes\<close>

text \<open>
  A handler first resolves its session with \<^verbatim>\<open>projectManager.getSession\<close>; the functions
  of this section start from the resolved session. An optional argument of the tool schema
  is an \<open>option\<close>; where the source tests such a string for truthiness, the empty string
  counts as absent.
\<close>

definition nonEmpty :: "string option \<Rightarrow> string option" where
  "nonEmpty v = (case v of Some t \<Rightarrow> (if t = [] then None else Some t) | None \<Rightarrow> None)"

record settings =
  set_name :: "string option"
  set_version :: "string option"
  set_description :: "string option"
  set_author :: "string option"
  set_packageName :: "string option"
  set_windowWidth :: "int option"
  set_windowHeight :: "int option"
  set_maxFPS :: "int option"
  set_minFPS :: "int option"
  set_firstLayout :: "string option"

definition applySetting ::
  "'a option \<Rightarrow> ('a \<Rightarrow> project \<Rightarrow> project) \<Rightarrow> string \<Rightarrow> project \<times> string list \<Rightarrow> project \<times> string list"
where
  "applySetting opt setter label st =
     (case opt of
        Some v \<Rightarrow> (setter v (fst st), snd st @ [label])
      | None \<Rightarrow> st)"

definition plainSettings :: "settings \<Rightarrow> project \<Rightarrow> project \<times> string list" where
  "plainSettings st p =
     (applySetting (set_minFPS st) (\<lambda>v q. q\<lparr>minFPS := v\<rparr>) ''minFPS''
     (applySetting (set_maxFPS st) (\<lambda>v q. q\<lparr>maxFPS := v\<rparr>) ''maxFPS''
     (applySetting (set_windowHeight st) (\<lambda>v q. q\<lparr>windowHeight := v\<rparr>) ''windowHeight''
     (applySetting (set_windowWidth st) (\<lambda>v q. q\<lparr>windowWidth := v\<rparr>) ''windowWidth''
     (applySetting (set_packageName st) (\<lambda>v q. q\<lparr>packageName := v\<rparr>) ''packageName''
     (applySetting (set_author st) (\<lambda>v q. q\<lparr>author := v\<rparr>) ''author''
     (applySetting (set_description st) (\<lambda>v q. q\<lparr>description := v\<rparr>) ''description''
     (applySetting (set_version st) (\<lambda>v q. q\<lparr>version := v\<rparr>) ''version''
     (applySetting (set_name st) (\<lambda>v q. q\<lparr>pname := v\<rparr>) ''name''
       (p, []))))))))))"

text \<open>
  \<^verbatim>\<open>gdevelop_project_settings\<close>: the nine plain settings are written first; the check of
  \<^verbatim>\<open>firstLayout\<close> comes last, so its error leaves the earlier writes in the document and
  the dirty flag untouched. The result is the list \<^verbatim>\<open>updatedSettings\<close>.
\<close>

definition gdevelop_project_settings ::
  "settings \<Rightarrow> nat \<Rightarrow> session \<Rightarrow> (error + string list) \<times> session"
where
  "gdevelop_project_settings st now s =
     (let (p1, updated1) = plainSettings st (project s);
          s1 = s\<lparr>project := p1\<rparr>
      in case set_firstLayout st of
           Some fl \<Rightarrow>
             (if \<not> hasLayout s1 fl then (Inl (LayoutNotFound fl), s1)
              else (Inr (updated1 @ [''firstLayout'']),
                    markDirty now (s1\<lparr>project := p1\<lparr>firstLayout := fl\<rparr>\<rparr>)))
         | None \<Rightarrow>
             (Inr updated1, if updated1 \<noteq> [] then markDirty now s1 else s1))"

text \<open>Modelled from the spec: GDCore's \<^verbatim>\<open>Project.getLayoutPosition\<close>; the index of the
  scene of that name, and \<open>-1\<close> where \<^verbatim>\<open>moveLayout\<close> of the session expects it for a missing
  name.\<close>

fun positionOf :: "string \<Rightarrow> layout list \<Rightarrow> int \<Rightarrow> int" where
  "positionOf n [] i = -1"
| "positionOf n (l # ls) i = (if lname l = n then i else positionOf n ls (i + 1))"

definition getLayoutPosition :: "session \<Rightarrow> string \<Rightarrow> int" where
  "getLayoutPosition s n = positionOf n (layouts (project s)) 0"

text \<open>
  \<^verbatim>\<open>gdevelop_scene_create\<close>. The background colour of the new scene is not a field of the
  modelled document, so the \<^verbatim>\<open>backgroundColor\<close> argument is left out. The result is
  \<^verbatim>\<open>sceneIndex\<close>.
\<close>

definition gdevelop_scene_create ::
  "string \<Rightarrow> int option \<Rightarrow> bool \<Rightarrow> nat \<Rightarrow> session \<Rightarrow> (error + int) \<times> session"
where
  "gdevelop_scene_create n position setAsFirst now s =
     (case createLayout n position now s of
        (Inl e, s1) \<Rightarrow> (Inl e, s1)
      | (Inr _, s1) \<Rightarrow>
          (let s2 = (if setAsFirst then s1\<lparr>project := (project s1)\<lparr>firstLayout := n\<rparr>\<rparr> else s1)
           in (Inr (getLayoutPosition s2 n), s2)))"

definition gdevelop_scene_delete :: "string \<Rightarrow> nat \<Rightarrow> session \<Rightarrow> (error + unit) \<times> session" where
  "gdevelop_scene_delete sceneName now s = deleteLayout sceneName now s"

definition gdevelop_scene_rename ::
  "string \<Rightarrow> string \<Rightarrow> nat \<Rightarrow> session \<Rightarrow> (error + unit) \<times> session"
where
  "gdevelop_scene_rename currentName newName now s = renameLayout currentName newName now s"

subsection \<open>Sequences of the exposed mutations\<close>

datatype mutation =
    SceneCreate string "int option" bool
  | SceneDelete string
  | SceneRename string string
  | SettingsUpdate settings

fun step :: "nat \<Rightarrow> mutation \<Rightarrow> session \<Rightarrow> session" where
  "step now (SceneCreate n position setAsFirst) s = snd (gdevelop_scene_create n position setAsFirst now s)"
| "step now (SceneDelete n) s = snd (gdevelop_scene_delete n now s)"
| "step now (SceneRename c n) s = snd (gdevelop_scene_rename c n now s)"
| "step now (SettingsUpdate st) s = snd (gdevelop_project_settings st now s)"

text \<open>The sessions observed after each call of a sequence; every call comes with its time.\<close>

fun observed :: "(nat \<times> mutation) list \<Rightarrow> session \<Rightarrow> session list" where
  "observed [] s = []"
| "observed (c # cs) s = step (fst c) (snd c) s # observed cs (step (fst c) (snd c) s)"

text \<open>The invariant of the document on its first scene.\<close>

definition firstLayoutValid :: "project \<Rightarrow> bool" where
  "firstLayoutValid p = (firstLayout p = [] \<or> hasLayoutNamed p (firstLayout p))"

text \<open>No call of the sequence deletes the scene that is the first scene when it runs.\<close>

fun sparesFirstLayout :: "(nat \<times> mutation) list \<Rightarrow> session \<Rightarrow> bool" where
  "sparesFirstLayout [] s = True"
| "sparesFirstLayout (c # cs) s =
     ((case snd c of SceneDelete n \<Rightarrow> n \<noteq> firstLayout (project s) | _ \<Rightarrow> True)
      \<and> sparesFirstLayout cs (step (fst c) (snd c) s))"

section \<open>Tool handlers of the server: objects and instances\<close>

text \<open>Modelled from the spec: GDCore's \<^verbatim>\<open>ObjectsContainer.hasObjectNamed\<close>; object names
  are looked up in the ordered container.\<close>

definition hasObjectNamed :: "gdobject list \<Rightarrow> string \<Rightarrow> bool" where
  "hasObjectNamed os n = (n \<in> set (map oname os))"

definition hasGlobalObject :: "session \<Rightarrow> string \<Rightarrow> bool" where
  "hasGlobalObject s n = hasObjectNamed (globalObjects (project s)) n"

text \<open>Modelled from the spec: GDCore's \<^verbatim>\<open>InitialInstancesContainer.renameInstancesOfObject\<close>;
  it rewrites the matching object-name references of one instance container.\<close>

definition renameInstancesOfObject ::
  "string \<Rightarrow> string \<Rightarrow> initial_instance list \<Rightarrow> initial_instance list"
where
  "renameInstancesOfObject oldName newName =
     map (\<lambda>i. if objectName i = oldName then i\<lparr>objectName := newName\<rparr> else i)"

definition renameObject :: "string \<Rightarrow> string \<Rightarrow> gdobject list \<Rightarrow> gdobject list" where
  "renameObject currentName newName os =
     update_first (\<lambda>ob. oname ob = currentName) (\<lambda>ob. ob\<lparr>oname := newName\<rparr>) os"

text \<open>
  \<^verbatim>\<open>gdevelop_object_rename\<close>. The container is the one of the scene when \<^verbatim>\<open>sceneName\<close> is
  truthy and the global one otherwise; the loop over \<^verbatim>\<open>getLayoutAt(i)\<close> visits every scene.
  The result is \<^verbatim>\<open>referencesUpdated\<close>, the number of scenes visited.
\<close>

definition objectsContainer :: "session \<Rightarrow> string option \<Rightarrow> error + gdobject list" where
  "objectsContainer s sceneName =
     (case nonEmpty sceneName of
        Some sc \<Rightarrow> map_sum id objects (getLayout s sc)
      | None \<Rightarrow> Inr (globalObjects (project s)))"

definition gdevelop_object_rename ::
  "string \<Rightarrow> string \<Rightarrow> string option \<Rightarrow> nat \<Rightarrow> session \<Rightarrow> (error + nat) \<times> session"
where
  "gdevelop_object_rename currentName newName sceneName now s =
     (case objectsContainer s sceneName of
        Inl e \<Rightarrow> (Inl e, s)
      | Inr container \<Rightarrow>
          if \<not> hasObjectNamed container currentName then (Inl (ObjectNotFound currentName), s)
          else if hasObjectNamed container newName then (Inl (ObjectExists newName), s)
          else
            let p = project s;
                p1 = (case nonEmpty sceneName of
                        Some sc \<Rightarrow>
                          modifyLayout sc (\<lambda>l. l\<lparr>objects := renameObject currentName newName (objects l)\<rparr>) p
                      | None \<Rightarrow>
                          p\<lparr>globalObjects := renameObject currentName newName (globalObjects p)\<rparr>);
                p2 = p1\<lparr>layouts :=
                        map (\<lambda>l. l\<lparr>instances := renameInstancesOfObject currentName newName (instances l)\<rparr>)
                            (layouts p1)\<rparr>
            in (Inr (length (layouts p1)), markDirty now (s\<lparr>project := p2\<rparr>)))"

subsection \<open>Batch creation of instances\<close>

record batch_item =
  b_objectName :: string
  b_x :: int
  b_y :: int
  b_z :: "int option"
  b_layer :: "string option"
  b_angle :: "int option"
  b_zOrder :: "int option"

datatype batch_result =
    ItemCreated string int int
  | ItemFailed string string

fun succeeded :: "batch_result \<Rightarrow> bool" where
  "succeeded (ItemCreated n px py) = True"
| "succeeded (ItemFailed n msg) = False"

text \<open>Modelled from the spec: GDCore's \<^verbatim>\<open>insertNewInitialInstance\<close>; the container gains
  one instance, with no object name, at the origin of the base layer, and hands it out for
  the setters that follow.\<close>

definition newInitialInstance :: initial_instance where
  "newInitialInstance =
     \<lparr>objectName = [], posX = 0, posY = 0, posZ = 0, layer = [], angle = 0, zOrder = 0\<rparr>"

definition setOptional :: "'a option \<Rightarrow> ('a \<Rightarrow> 'b \<Rightarrow> 'b) \<Rightarrow> 'b \<Rightarrow> 'b" where
  "setOptional opt setter v = (case opt of Some a \<Rightarrow> setter a v | None \<Rightarrow> v)"

definition placedInstance :: "batch_item \<Rightarrow> initial_instance" where
  "placedInstance d =
     (setOptional (b_zOrder d) (\<lambda>v i. i\<lparr>zOrder := v\<rparr>)
     (setOptional (b_angle d) (\<lambda>v i. i\<lparr>angle := v\<rparr>)
     (setOptional (b_layer d) (\<lambda>v i. i\<lparr>layer := v\<rparr>)
     (setOptional (b_z d) (\<lambda>v i. i\<lparr>posZ := v\<rparr>)
       (newInitialInstance\<lparr>objectName := b_objectName d, posX := b_x d, posY := b_y d\<rparr>)))))"

text \<open>
  The loop of \<^verbatim>\<open>gdevelop_instance_batch\<close> over the items, carrying the instance container
  and the result list. The modelled GDCore setters do not raise, so the \<^verbatim>\<open>catch\<close> of the
  loop body has nothing to catch here.
\<close>

fun batchLoop ::
  "gdobject list \<Rightarrow> gdobject list \<Rightarrow> batch_item list
   \<Rightarrow> initial_instance list \<times> batch_result list \<Rightarrow> initial_instance list \<times> batch_result list"
where
  "batchLoop sceneObjs globalObjs [] acc = acc"
| "batchLoop sceneObjs globalObjs (d # ds) acc =
     (if \<not> hasObjectNamed sceneObjs (b_objectName d) \<and> \<not> hasObjectNamed globalObjs (b_objectName d)
      then batchLoop sceneObjs globalObjs ds
             (fst acc, snd acc @ [ItemFailed (b_objectName d) ''Object not found''])
      else batchLoop sceneObjs globalObjs ds
             (fst acc @ [placedInstance d],
              snd acc @ [ItemCreated (b_objectName d) (b_x d) (b_y d)]))"

text \<open>What the specification says of one item of a batch: whether its object is known to
  the scene or globally, and the entry reported for it.\<close>

definition objectKnown :: "gdobject list \<Rightarrow> gdobject list \<Rightarrow> batch_item \<Rightarrow> bool" where
  "objectKnown sceneObjs globalObjs d =
     (hasObjectNamed sceneObjs (b_objectName d) \<or> hasObjectNamed globalObjs (b_objectName d))"

definition itemEntry :: "gdobject list \<Rightarrow> gdobject list \<Rightarrow> batch_item \<Rightarrow> batch_result" where
  "itemEntry sceneObjs globalObjs d =
     (if objectKnown sceneObjs globalObjs d
      then ItemCreated (b_objectName d) (b_x d) (b_y d)
      else ItemFailed (b_objectName d) ''Object not found'')"

text \<open>The result is the pair of \<^verbatim>\<open>results\<close> and \<^verbatim>\<open>createdCount\<close>.\<close>

definition gdevelop_instance_batch ::
  "string \<Rightarrow> batch_item list \<Rightarrow> nat \<Rightarrow> session \<Rightarrow> (error + batch_result list \<times> nat) \<times> session"
where
  "gdevelop_instance_batch sceneName instancesData now s =
     (case getLayout s sceneName of
        Inl e \<Rightarrow> (Inl e, s)
      | Inr l \<Rightarrow>
          (let (insts, results) =
                 batchLoop (objects l) (globalObjects (project s)) instancesData (instances l, []);
               p1 = modifyLayout sceneName (\<lambda>l. l\<lparr>instances := insts\<rparr>) (project s)
           in (Inr (results, length (filter succeeded results)),
               markDirty now (s\<lparr>project := p1\<rparr>))))"

text \<open>The instance container of a scene, as \<^verbatim>\<open>getLayout(n).getInitialInstances()\<close> reads it.\<close>

definition instancesOf :: "session \<Rightarrow> string \<Rightarrow> initial_instance list" where
  "instancesOf s n = (case getLayout s n of Inr l \<Rightarrow> instances l | Inl e \<Rightarrow> [])"

section \<open>Tool handlers of the server: events\<close>

subsection \<open>Decimal numerals of template strings\<close>

definition digit_char :: "nat \<Rightarrow> char" where
  "digit_char d = ''0123456789'' ! (d mod 10)"

fun string_of_nat :: "nat \<Rightarrow> string" where
  "string_of_nat n =
     (if n < 10 then [digit_char n] else string_of_nat (n div 10) @ [digit_char (n mod 10)])"

declare string_of_nat.simps [simp del]

subsection \<open>Event types and summaries\<close>

datatype event_kind =
  StandardEvent | CommentEvent | GroupEvent | ForEachEvent | RepeatEvent | WhileEvent | LinkEvent

fun EVENT_TYPES :: "event_kind \<Rightarrow> string" where
  "EVENT_TYPES StandardEvent = ''BuiltinCommonInstructions::Standard''"
| "EVENT_TYPES CommentEvent = ''BuiltinCommonInstructions::Comment''"
| "EVENT_TYPES GroupEvent = ''BuiltinCommonInstructions::Group''"
| "EVENT_TYPES ForEachEvent = ''BuiltinCommonInstructions::ForEach''"
| "EVENT_TYPES RepeatEvent = ''BuiltinCommonInstructions::Repeat''"
| "EVENT_TYPES WhileEvent = ''BuiltinCommonInstructions::While''"
| "EVENT_TYPES LinkEvent = ''BuiltinCommonInstructions::Link''"





subsection \<open>Listing events\<close>



subsection \<open>Resolving the addressed event list\<close>

text \<open>Modelled from the spec: GDCore's \<^verbatim>\<open>Project.hasExternalEventsNamed\<close> and
  \<^verbatim>\<open>getExternalEvents\<close>; the named external-events trees of the document. Asking for a
  name that is absent is outside the interface and gives \<open>LibraryFault\<close>.\<close>

definition hasExternalEventsNamed :: "project \<Rightarrow> string \<Rightarrow> bool" where
  "hasExternalEventsNamed p n = (n \<in> set (map fst (externalEvents p)))"

definition getExternalEvents :: "project \<Rightarrow> string \<Rightarrow> error + event list" where
  "getExternalEvents p n =
     (case map_of (externalEvents p) n of Some es \<Rightarrow> Inr es | None \<Rightarrow> Inl LibraryFault)"

text \<open>
  The \<^verbatim>\<open>if (sceneName) ... else if (externalEventsName) ... else throw\<close> chain that opens
  every event handler. \<open>checked\<close> tells whether the handler asks \<^verbatim>\<open>hasExternalEventsNamed\<close>
  first, as the list and create handlers do.
\<close>

definition resolveEventsList ::
  "bool \<Rightarrow> string option \<Rightarrow> string option \<Rightarrow> session \<Rightarrow> error + event list"
where
  "resolveEventsList checked sceneName externalEventsName s =
     (case nonEmpty sceneName of
        Some sc \<Rightarrow> map_sum id events (getLayout s sc)
      | None \<Rightarrow>
          (case nonEmpty externalEventsName of
             Some ex \<Rightarrow>
               (if checked \<and> \<not> hasExternalEventsNamed (project s) ex
                then Inl (ExternalEventsNotFound ex)
                else getExternalEvents (project s) ex)
           | None \<Rightarrow> Inl MustSpecifyTarget))"

text \<open>A mutation through the resolved reference is an update of that list in the document.\<close>

definition storeEventsList :: "string option \<Rightarrow> string option \<Rightarrow> event list \<Rightarrow> session \<Rightarrow> session" where
  "storeEventsList sceneName externalEventsName es s =
     (case nonEmpty sceneName of
        Some sc \<Rightarrow> s\<lparr>project := modifyLayout sc (\<lambda>l. l\<lparr>events := es\<rparr>) (project s)\<rparr>
      | None \<Rightarrow>
          (case nonEmpty externalEventsName of
             Some ex \<Rightarrow>
               s\<lparr>project := (project s)\<lparr>externalEvents :=
                    update_first (\<lambda>kv. fst kv = ex) (\<lambda>kv. (fst kv, es)) (externalEvents (project s))\<rparr>\<rparr>
           | None \<Rightarrow> s))"


subsection \<open>Creating events\<close>



text \<open>Modelled from the spec: GDCore's \<^verbatim>\<open>Instruction\<close> constructor and \<^verbatim>\<open>setParameter\<close>;
  a new instruction has no parameters, and setting parameter \<open>i\<close> extends the ordered,
  index-addressed parameter list up to that index.\<close>

definition newInstruction :: instruction where
  "newInstruction = \<lparr>itype = [], inverted = False, parameters = []\<rparr>"

definition setParameter :: "nat \<Rightarrow> string \<Rightarrow> instruction \<Rightarrow> instruction" where
  "setParameter i v ins =
     ins\<lparr>parameters := (parameters ins @ replicate (i + 1 - length (parameters ins)) [])[i := v]\<rparr>"

fun setParameters :: "nat \<Rightarrow> string list \<Rightarrow> instruction \<Rightarrow> instruction" where
  "setParameters i [] ins = ins"
| "setParameters i (v # vs) ins = setParameters (i + 1) vs (setParameter i v ins)"

text \<open>Modelled from the spec: GDCore's \<^verbatim>\<open>InstructionsList.insert\<close>; inserts at a position
  of the ordered list, and appends when the position is not an index of it.\<close>

definition insertInstruction :: "instruction \<Rightarrow> int \<Rightarrow> instruction list \<Rightarrow> instruction list" where
  "insertInstruction ins pos xs = insert_at pos ins xs"





fun setConditions :: "instruction list option \<Rightarrow> event \<Rightarrow> event" where
  "setConditions v (Event ty dis fol cl al can subs) = Event ty dis fol v al can subs"

fun setActions :: "instruction list option \<Rightarrow> event \<Rightarrow> event" where
  "setActions v (Event ty dis fol cl al can subs) = Event ty dis fol cl v can subs"

fun setDisabled :: "bool \<Rightarrow> event \<Rightarrow> event" where
  "setDisabled v (Event ty dis fol cl al can subs) = Event ty v fol cl al can subs"

fun setFolded :: "bool \<Rightarrow> event \<Rightarrow> event" where
  "setFolded v (Event ty dis fol cl al can subs) = Event ty dis v cl al can subs"



subsection \<open>Deleting and updating events\<close>

text \<open>Modelled from the spec: GDCore's \<^verbatim>\<open>EventsList.removeEventAt\<close>; removes exactly the
  node at the index, with its nested tree.\<close>

definition removeEventAt :: "int \<Rightarrow> event list \<Rightarrow> event list" where
  "removeEventAt i es = take (nat i) es @ drop (nat i + 1) es"

definition gdevelop_event_delete ::
  "string option \<Rightarrow> string option \<Rightarrow> int \<Rightarrow> nat \<Rightarrow> session \<Rightarrow> (error + int) \<times> session"
where
  "gdevelop_event_delete sceneName externalEventsName eventIndex now s =
     (case resolveEventsList False sceneName externalEventsName s of
        Inl e \<Rightarrow> (Inl e, s)
      | Inr eventsList \<Rightarrow>
          if eventIndex < 0 \<or> eventIndex \<ge> int (length eventsList)
          then (Inl (EventIndexOutOfBounds eventIndex), s)
          else (Inr eventIndex,
                markDirty now
                  (storeEventsList sceneName externalEventsName (removeEventAt eventIndex eventsList) s)))"

definition gdevelop_event_update ::
  "string option \<Rightarrow> string option \<Rightarrow> int \<Rightarrow> bool option \<Rightarrow> bool option \<Rightarrow> nat \<Rightarrow> session
   \<Rightarrow> (error + unit) \<times> session"
where
  "gdevelop_event_update sceneName externalEventsName eventIndex dis fol now s =
     (case resolveEventsList False sceneName externalEventsName s of
        Inl e \<Rightarrow> (Inl e, s)
      | Inr eventsList \<Rightarrow>
          if eventIndex < 0 \<or> eventIndex \<ge> int (length eventsList)
          then (Inl (EventIndexOutOfBounds eventIndex), s)
          else
            (let ev = eventsList ! nat eventIndex;
                 ev1 = setOptional dis setDisabled ev;
                 ev2 = setOptional fol setFolded ev1
             in (Inr (),
                 markDirty now
                   (storeEventsList sceneName externalEventsName
                      (eventsList[nat eventIndex := ev2]) s))))"

subsection \<open>Adding conditions and actions\<close>

text \<open>
  \<^verbatim>\<open>eventsList.getEventAt(eventIndex)\<close>. Inside the bounds it is the event at the index.
  Outside them GDCore's interface says nothing; what the native call does there is the
  parameter \<open>oob\<close>: it raises (\<open>None\<close>, the error \<open>LibraryFault\<close>) or hands out some
  event object that is no element of the list.
\<close>

definition getEventAt ::
  "(event list \<Rightarrow> int \<Rightarrow> event option) \<Rightarrow> event list \<Rightarrow> int \<Rightarrow> error + event"
where
  "getEventAt oob es i =
     (if 0 \<le> i \<and> i < int (length es) then Inr (es ! nat i)
      else case oob es i of Some e \<Rightarrow> Inr e | None \<Rightarrow> Inl LibraryFault)"

text \<open>The write through the event reference that \<^verbatim>\<open>getEventAt\<close> returned.\<close>

definition putEventAt :: "int \<Rightarrow> event \<Rightarrow> event list \<Rightarrow> event list" where
  "putEventAt i e es = (if 0 \<le> i \<and> i < int (length es) then es[nat i := e] else es)"

text \<open>\<^verbatim>\<open>gdevelop_condition_add\<close>; the result is \<^verbatim>\<open>conditionIndex\<close>.\<close>

definition gdevelop_condition_add ::
  "(event list \<Rightarrow> int \<Rightarrow> event option) \<Rightarrow> string option \<Rightarrow> string option \<Rightarrow> int
   \<Rightarrow> string \<Rightarrow> string list \<Rightarrow> bool \<Rightarrow> int option \<Rightarrow> nat \<Rightarrow> session \<Rightarrow> (error + int) \<times> session"
where
  "gdevelop_condition_add oob sceneName externalEventsName eventIndex ctype cparams cinverted position now s =
     (case resolveEventsList False sceneName externalEventsName s of
        Inl e \<Rightarrow> (Inl e, s)
      | Inr eventsList \<Rightarrow>
          (case getEventAt oob eventsList eventIndex of
             Inl e \<Rightarrow> (Inl e, s)
           | Inr ev \<Rightarrow>
               (case conditions ev of
                  None \<Rightarrow> (Inl EventNoConditions, s)
                | Some conditionsList \<Rightarrow>
                    (let ins = setParameters 0 cparams
                                 (newInstruction\<lparr>itype := ctype, inverted := cinverted\<rparr>);
                         pos = (case position of Some k \<Rightarrow> k
                                | None \<Rightarrow> int (length conditionsList));
                         ev1 = setConditions (Some (insertInstruction ins pos conditionsList)) ev
                     in (Inr pos,
                         markDirty now
                           (storeEventsList sceneName externalEventsName
                              (putEventAt eventIndex ev1 eventsList) s))))))"

text \<open>\<^verbatim>\<open>gdevelop_action_add\<close>; the result is \<^verbatim>\<open>actionIndex\<close>.\<close>

definition gdevelop_action_add ::
  "(event list \<Rightarrow> int \<Rightarrow> event option) \<Rightarrow> string option \<Rightarrow> string option \<Rightarrow> int
   \<Rightarrow> string \<Rightarrow> string list \<Rightarrow> int option \<Rightarrow> nat \<Rightarrow> session \<Rightarrow> (error + int) \<times> session"
where
  "gdevelop_action_add oob sceneName externalEventsName eventIndex atype aparams position now s =
     (case resolveEventsList False sceneName externalEventsName s of
        Inl e \<Rightarrow> (Inl e, s)
      | Inr eventsList \<Rightarrow>
          (case getEventAt oob eventsList eventIndex of
             Inl e \<Rightarrow> (Inl e, s)
           | Inr ev \<Rightarrow>
               (case actions ev of
                  None \<Rightarrow> (Inl EventNoActions, s)
                | Some actionsList \<Rightarrow>
                    (let ins = setParameters 0 aparams (newInstruction\<lparr>itype := atype\<rparr>);
                         pos = (case position of Some k \<Rightarrow> k
                                | None \<Rightarrow> int (length actionsList));
                         ev1 = setActions (Some (insertInstruction ins pos actionsList)) ev
                     in (Inr pos,
                         markDirty now
                           (storeEventsList sceneName externalEventsName
                              (putEventAt eventIndex ev1 eventsList) s))))))"

subsection \<open>Nodes of an event tree by their path\<close>






section \<open>Persistence\<close>

text \<open>
  The file system and \<^verbatim>\<open>gdcore-tools\<close> are outside the repository. Their calls are the
  fields of an environment over a type \<open>'w\<close> of worlds: a call returns the message of the
  exception it raised, if any, and the world it leaves. The functions of Node's
  \<^verbatim>\<open>path\<close> module are pure fields of the same environment.
\<close>

record 'w io =
  fs_saveProject :: "project \<Rightarrow> string \<Rightarrow> string \<Rightarrow> 'w \<Rightarrow> string option \<times> 'w"
  fs_copyFile :: "string \<Rightarrow> string \<Rightarrow> 'w \<Rightarrow> string option \<times> 'w"
  path_dirname :: "string \<Rightarrow> string"
  path_basename :: "string \<Rightarrow> string"
  path_extname :: "string \<Rightarrow> string"
  path_basename_ext :: "string \<Rightarrow> string \<Rightarrow> string"
  path_join :: "string \<Rightarrow> string \<Rightarrow> string"

text \<open>
  \<^verbatim>\<open>ProjectSession.save(savePath?)\<close>: the result is the target path. The two statements
  after the \<^verbatim>\<open>await\<close> run only when the write did not raise. \<open>orElse\<close> is the
  \<^verbatim>\<open>savePath || this.projectPath\<close> of the source.
\<close>

definition orElse :: "string option \<Rightarrow> string \<Rightarrow> string" where
  "orElse v d = (case nonEmpty v of Some t \<Rightarrow> t | None \<Rightarrow> d)"

definition save ::
  "'w io \<Rightarrow> string option \<Rightarrow> session \<Rightarrow> 'w \<Rightarrow> (error + string) \<times> session \<times> 'w"
where
  "save env savePath s w =
     (let targetPath = orElse savePath (projectPath s);
          dir = path_dirname env targetPath;
          filename = path_basename env targetPath
      in case fs_saveProject env (project s) filename dir w of
           (Some msg, w1) \<Rightarrow> (Inl (IOFailure msg), s, w1)
         | (None, w1) \<Rightarrow>
             (Inr targetPath,
              (case nonEmpty savePath of
                 Some p \<Rightarrow> s\<lparr>dirty := False, projectPath := p\<rparr>
               | None \<Rightarrow> s\<lparr>dirty := False\<rparr>),
              w1))"

text \<open>\<^verbatim>\<open>ProjectSession.createBackup()\<close>, with \<open>now\<close> the value of \<^verbatim>\<open>Date.now()\<close>; the
  result is the backup path.\<close>

definition createBackup :: "'w io \<Rightarrow> nat \<Rightarrow> session \<Rightarrow> 'w \<Rightarrow> (error + string) \<times> 'w" where
  "createBackup env now s w =
     (let ext = path_extname env (projectPath s);
          base = path_basename_ext env (projectPath s) ext;
          dir = path_dirname env (projectPath s);
          backupPath = path_join env dir (base @ ''.backup-'' @ string_of_nat now @ ext)
      in case fs_copyFile env (projectPath s) backupPath w of
           (Some msg, w1) \<Rightarrow> (Inl (IOFailure msg), w1)
         | (None, w1) \<Rightarrow> (Inr backupPath, w1))"

section \<open>ProjectManager\<close>

text \<open>
  The \<^verbatim>\<open>Map\<close> of sessions, in insertion order. A session handed out by the manager is a
  reference, so a change of the session is a change of the entry.
\<close>

type_synonym registry = "(string \<times> session) list"

definition getSession :: "registry \<Rightarrow> string \<Rightarrow> error + session" where
  "getSession reg sessionId =
     (case map_of reg sessionId of Some s \<Rightarrow> Inr s | None \<Rightarrow> Inl (SessionNotFound sessionId))"

definition hasSession :: "registry \<Rightarrow> string \<Rightarrow> bool" where
  "hasSession reg sessionId = (map_of reg sessionId \<noteq> None)"

definition putSession :: "string \<Rightarrow> session \<Rightarrow> registry \<Rightarrow> registry" where
  "putSession sessionId s reg = map (\<lambda>kv. if fst kv = sessionId then (sessionId, s) else kv) reg"

definition deleteSession :: "string \<Rightarrow> registry \<Rightarrow> registry" where
  "deleteSession sessionId reg = filter (\<lambda>kv. fst kv \<noteq> sessionId) reg"

definition getSessionCount :: "registry \<Rightarrow> nat" where
  "getSessionCount reg = length reg"

text \<open>
  \<^verbatim>\<open>closeSession(sessionId, save)\<close>. An exception of \<^verbatim>\<open>session.save()\<close> leaves the method
  before \<^verbatim>\<open>dispose\<close> and \<^verbatim>\<open>sessions.delete\<close>. \<^verbatim>\<open>dispose\<close> frees the native document of a
  session that is no longer reachable and is no step of the model.
\<close>

definition closeSession ::
  "'w io \<Rightarrow> string \<Rightarrow> bool \<Rightarrow> registry \<times> 'w \<Rightarrow> (error + bool) \<times> registry \<times> 'w"
where
  "closeSession env sessionId saveFirst st =
     (case map_of (fst st) sessionId of
        None \<Rightarrow> (Inr False, st)
      | Some s \<Rightarrow>
          if saveFirst \<and> isDirty s
          then (case save env None s (snd st) of
                  (Inl e, s1, w1) \<Rightarrow> (Inl e, putSession sessionId s1 (fst st), w1)
                | (Inr p, s1, w1) \<Rightarrow> (Inr True, deleteSession sessionId (fst st), w1))
          else (Inr True, deleteSession sessionId (fst st), snd st))"

text \<open>
  \<^verbatim>\<open>closeAllSessions(save)\<close>: the loop over \<^verbatim>\<open>this.sessions.keys()\<close> awaits each
  \<^verbatim>\<open>closeSession\<close> with no handler around it, so the first exception ends the loop.
  Deleting the entry just visited does not disturb the iteration of a \<^verbatim>\<open>Map\<close>.
\<close>

fun closeLoop ::
  "'w io \<Rightarrow> bool \<Rightarrow> string list \<Rightarrow> registry \<times> 'w \<Rightarrow> (error + unit) \<times> registry \<times> 'w"
where
  "closeLoop env saveFirst [] st = (Inr (), st)"
| "closeLoop env saveFirst (k # ks) st =
     (case closeSession env k saveFirst st of
        (Inl e, st1) \<Rightarrow> (Inl e, st1)
      | (Inr b, st1) \<Rightarrow> closeLoop env saveFirst ks st1)"

definition closeAllSessions ::
  "'w io \<Rightarrow> bool \<Rightarrow> registry \<times> 'w \<Rightarrow> (error + unit) \<times> registry \<times> 'w"
where
  "closeAllSessions env saveFirst st = closeLoop env saveFirst (map fst (fst st)) st"

text \<open>
  \<^verbatim>\<open>gdevelop_project_save\<close>. The result is \<^verbatim>\<open>savedPath\<close> with the optional
  \<^verbatim>\<open>backupPath\<close>; the second component is what the handler logged as warnings.
\<close>

definition gdevelop_project_save ::
  "'w io \<Rightarrow> string \<Rightarrow> string option \<Rightarrow> bool \<Rightarrow> nat \<Rightarrow> registry \<times> 'w
   \<Rightarrow> (error + string \<times> string option) \<times> string list \<times> registry \<times> 'w"
where
  "gdevelop_project_save env sessionId savePath wantBackup now st =
     (case getSession (fst st) sessionId of
        Inl e \<Rightarrow> (Inl e, [], st)
      | Inr s \<Rightarrow>
          (let (backupPath, warnings, w1) =
                 (if wantBackup
                  then (case createBackup env now s (snd st) of
                          (Inl e, w) \<Rightarrow> (None, [''Failed to create backup''], w)
                        | (Inr bp, w) \<Rightarrow> (Some bp, [], w))
                  else (None, [], snd st))
           in case save env savePath s w1 of
                (Inl e, s1, w2) \<Rightarrow> (Inl e, warnings, putSession sessionId s1 (fst st), w2)
              | (Inr savedPath, s1, w2) \<Rightarrow>
                  (Inr (savedPath, backupPath), warnings, putSession sessionId s1 (fst st), w2)))"

section \<open>Concrete data used to run the operations\<close>

definition demoProject :: project where
  "demoProject =
     \<lparr>pname = ''Demo'', version = ''1.0.0'', description = '''', author = '''',
      packageName = ''com.example.demo'', windowWidth = 1280, windowHeight = 720,
      maxFPS = 60, minFPS = 20, firstLayout = ''Main'',
      layouts =
        [\<lparr>lname = ''Main'', objects = [\<lparr>oname = ''Hero'', otype = ''Sprite''\<rparr>],
          instances = [], events = []\<rparr>,
         \<lparr>lname = ''Menu'', objects = [], instances = [], events = []\<rparr>],
      globalObjects = [\<lparr>oname = ''Coin'', otype = ''Sprite''\<rparr>],
      externalEvents = []\<rparr>"

definition demoSession :: session where
  "demoSession =
     \<lparr>sid = ''s1'', project = demoProject, projectPath = ''/games/demo.json'',
      dirty = False, createdAt = 0, lastModifiedAt = 0\<rparr>"

text \<open>
  A disk for running the persistence code: files by whole path, and the paths whose write
  raises. Paths are flat here, the directory part of a path is empty.
\<close>

record disk =
  files :: "(string \<times> project) list"
  readOnly :: "string list"

definition diskIO :: "disk io" where
  "diskIO =
     \<lparr>fs_saveProject = (\<lambda>p filename dir w.
          if (dir @ filename) \<in> set (readOnly w) then (Some ''EACCES'', w)
          else (None, w\<lparr>files := (dir @ filename, p) # files w\<rparr>)),
      fs_copyFile = (\<lambda>src dst w.
          case map_of (files w) src of
            None \<Rightarrow> (Some ''ENOENT'', w)
          | Some c \<Rightarrow> (None, w\<lparr>files := (dst, c) # files w\<rparr>)),
      path_dirname = (\<lambda>p. []),
      path_basename = (\<lambda>p. p),
      path_extname = (\<lambda>p. []),
      path_basename_ext = (\<lambda>p e. p),
      path_join = (\<lambda>d f. d @ f)\<rparr>"

definition demoCalls :: "(nat \<times> mutation) list" where
  "demoCalls =
     [(1, SceneCreate ''Level1'' None True),
      (2, SceneDelete ''Menu''),
      (3, SceneRename ''Level1'' ''Level2''),
      (4, SettingsUpdate \<lparr>set_name = Some ''Demo 2'', set_version = None, set_description = None,
            set_author = None, set_packageName = None, set_windowWidth = None,
            set_windowHeight = None, set_maxFPS = Some 30, set_minFPS = None,
            set_firstLayout = Some ''Main''\<rparr>)]"

definition demoMain :: layout where
  "demoMain = \<lparr>lname = ''Main'', objects = [\<lparr>oname = ''Hero'', otype = ''Sprite''\<rparr>],
                instances = [], events = []\<rparr>"

definition heroItem :: batch_item where
  "heroItem = \<lparr>b_objectName = ''Hero'', b_x = 10, b_y = 20, b_z = None, b_layer = None,
               b_angle = Some 90, b_zOrder = None\<rparr>"

definition ghostItem :: batch_item where
  "ghostItem = \<lparr>b_objectName = ''Ghost'', b_x = 1, b_y = 2, b_z = None, b_layer = None,
                b_angle = None, b_zOrder = None\<rparr>"

text \<open>A session with placed instances in two scenes.\<close>

definition placed :: "string \<Rightarrow> int \<Rightarrow> initial_instance" where
  "placed n px = newInitialInstance\<lparr>objectName := n, posX := px\<rparr>"

definition stagedSession :: session where
  "stagedSession =
     demoSession\<lparr>project := demoProject\<lparr>layouts :=
       [\<lparr>lname = ''Main'', objects = [\<lparr>oname = ''Hero'', otype = ''Sprite''\<rparr>],
         instances = [placed ''Coin'' 1, placed ''Hero'' 2], events = []\<rparr>,
        \<lparr>lname = ''Menu'', objects = [], instances = [placed ''Coin'' 3], events = []\<rparr>]\<rparr>\<rparr>"

text \<open>An event tree with a nested tree below a nested tree, and the pieces of a new event.\<close>

definition demoTree :: "event list" where
  "demoTree =
     [Event (EVENT_TYPES GroupEvent) False False None None True
        [Event (EVENT_TYPES StandardEvent) False False
           (Some [\<lparr>itype = ''KeyPressed'', inverted = False, parameters = ['''', ''Space'']\<rparr>])
           (Some []) True
           [Event (EVENT_TYPES CommentEvent) False False None None False []]],
      Event (EVENT_TYPES StandardEvent) True False (Some []) (Some []) True []]"



definition eventSession :: session where
  "eventSession =
     demoSession\<lparr>project := demoProject\<lparr>layouts :=
       [\<lparr>lname = ''Main'', objects = [], instances = [], events = demoTree\<rparr>]\<rparr>\<rparr>"

text \<open>Three registered sessions; the file of the second cannot be written.\<close>

definition sessionA :: session where
  "sessionA = demoSession\<lparr>sid := ''a'', projectPath := ''/games/a.json'', dirty := True\<rparr>"

definition sessionB :: session where
  "sessionB = demoSession\<lparr>sid := ''b'', projectPath := ''/games/b.json'', dirty := True\<rparr>"

definition sessionC :: session where
  "sessionC = demoSession\<lparr>sid := ''c'', projectPath := ''/games/c.json'', dirty := False\<rparr>"

definition demoRegistry :: registry where
  "demoRegistry = [(''a'', sessionA), (''b'', sessionB), (''c'', sessionC)]"

definition demoDisk :: disk where
  "demoDisk = \<lparr>files = [], readOnly = [''/games/b.json'']\<rparr>"

section \<open>Facts about the name-addressed containers\<close>

lemma set_insert_at: "set (insert_at pos v xs) = insert v (set xs)"
proof (cases "0 \<le> pos \<and> pos < int (length xs)")
  case True
  have "set (take (nat pos) xs) \<union> set (drop (nat pos) xs) = set xs"
    by (metis append_take_drop_id set_append)
  with True show ?thesis by (auto simp: insert_at_def)
next
  case False
  then show ?thesis by (auto simp: insert_at_def)
qed

lemma remove_first_keeps:
  "x \<in> set xs \<Longrightarrow> \<not> P x \<Longrightarrow> x \<in> set (remove_first P xs)"
  by (induction xs) auto

lemma update_first_keeps:
  "x \<in> set xs \<Longrightarrow> \<not> P x \<Longrightarrow> x \<in> set (update_first P f xs)"
  by (induction xs) auto

lemma update_first_hits:
  "x \<in> set xs \<Longrightarrow> P x \<Longrightarrow> \<exists>y \<in> set xs. P y \<and> f y \<in> set (update_first P f xs)"
  by (induction xs) auto

lemma length_update_first: "length (update_first P f xs) = length xs"
  by (induction xs) auto

lemma hasLayoutNamed_iff: "hasLayoutNamed p n \<longleftrightarrow> (\<exists>l \<in> set (layouts p). lname l = n)"
  by (auto simp: hasLayoutNamed_def)

lemma hasLayoutNamed_insertNewLayout:
  "hasLayoutNamed (insertNewLayout n pos p) m \<longleftrightarrow> m = n \<or> hasLayoutNamed p m"
  by (auto simp: hasLayoutNamed_iff insertNewLayout_def set_insert_at)

lemma hasLayoutNamed_removeLayout:
  "hasLayoutNamed p m \<Longrightarrow> m \<noteq> n \<Longrightarrow> hasLayoutNamed (removeLayout n p) m"
  unfolding hasLayoutNamed_iff removeLayout_def
  by (auto intro: remove_first_keeps)

lemma hasLayoutNamed_rename_other:
  "hasLayoutNamed p m \<Longrightarrow> m \<noteq> c \<Longrightarrow>
   hasLayoutNamed (modifyLayout c (\<lambda>l. l\<lparr>lname := n\<rparr>) p) m"
  unfolding hasLayoutNamed_iff modifyLayout_def
  by (auto intro: update_first_keeps)

lemma hasLayoutNamed_rename_new:
  assumes "hasLayoutNamed p c"
  shows "hasLayoutNamed (modifyLayout c (\<lambda>l. l\<lparr>lname := n\<rparr>) p) n"
proof -
  from assms obtain l where l: "l \<in> set (layouts p)" "lname l = c"
    by (auto simp: hasLayoutNamed_iff)
  from update_first_hits [of l "layouts p" "\<lambda>l. lname l = c" "\<lambda>l. l\<lparr>lname := n\<rparr>"] l
  obtain y where "y\<lparr>lname := n\<rparr> \<in> set (update_first (\<lambda>l. lname l = c) (\<lambda>l. l\<lparr>lname := n\<rparr>) (layouts p))"
    by blast
  then show ?thesis
    unfolding hasLayoutNamed_iff modifyLayout_def by force
qed

section \<open>The first-scene invariant under the exposed mutations\<close>

lemma firstLayout_applySetting:
  assumes "\<And>v q. firstLayout (setter v q) = firstLayout q \<and> layouts (setter v q) = layouts q"
  shows "firstLayout (fst (applySetting opt setter label st)) = firstLayout (fst st)
       \<and> layouts (fst (applySetting opt setter label st)) = layouts (fst st)"
  using assms by (cases opt) (simp_all add: applySetting_def)

lemma plainSettings_frame:
  "firstLayout (fst (plainSettings st p)) = firstLayout p
   \<and> layouts (fst (plainSettings st p)) = layouts p"
  unfolding plainSettings_def
  by (simp add: firstLayout_applySetting)

lemma firstLayoutValid_cong:
  "firstLayout q = firstLayout p \<Longrightarrow> layouts q = layouts p \<Longrightarrow>
   firstLayoutValid q = firstLayoutValid p"
  by (simp add: firstLayoutValid_def hasLayoutNamed_def)

lemma settings_keeps_valid:
  assumes "firstLayoutValid (project s)"
  shows "firstLayoutValid (project (snd (gdevelop_project_settings st now s)))"
proof -
  obtain p1 u1 where ps: "plainSettings st (project s) = (p1, u1)"
    by (cases "plainSettings st (project s)")
  have fr: "firstLayout p1 = firstLayout (project s)" "layouts p1 = layouts (project s)"
    using plainSettings_frame [of st "project s"] ps by simp_all
  have v1: "firstLayoutValid p1"
    using assms firstLayoutValid_cong [OF fr] by simp
  show ?thesis
  proof (cases "set_firstLayout st")
    case None
    with ps v1 show ?thesis
      by (simp add: gdevelop_project_settings_def markDirty_def Let_def)
  next
    case (Some fl)
    show ?thesis
    proof (cases "hasLayoutNamed p1 fl")
      case True
      then have "firstLayoutValid (p1\<lparr>firstLayout := fl\<rparr>)"
        by (simp add: firstLayoutValid_def hasLayoutNamed_def)
      with Some ps True show ?thesis
        by (simp add: gdevelop_project_settings_def markDirty_def hasLayout_def Let_def)
    next
      case False
      with Some ps v1 show ?thesis
        by (simp add: gdevelop_project_settings_def hasLayout_def Let_def)
    qed
  qed
qed

lemma create_keeps_valid:
  assumes "firstLayoutValid (project s)"
  shows "firstLayoutValid (project (snd (gdevelop_scene_create n position setAsFirst now s)))"
proof (cases "hasLayout s n")
  case True
  with assms show ?thesis
    by (simp add: gdevelop_scene_create_def createLayout_def)
next
  case False
  then show ?thesis
    using assms
    by (auto simp: gdevelop_scene_create_def createLayout_def markDirty_def Let_def
        firstLayoutValid_def hasLayoutNamed_insertNewLayout insertNewLayout_def
        hasLayoutNamed_def set_insert_at)
qed

lemma delete_keeps_valid:
  assumes "firstLayoutValid (project s)" and "n \<noteq> firstLayout (project s)"
  shows "firstLayoutValid (project (snd (gdevelop_scene_delete n now s)))"
proof (cases "hasLayout s n")
  case False
  with assms show ?thesis
    by (simp add: gdevelop_scene_delete_def deleteLayout_def)
next
  case True
  have fl: "firstLayout (removeLayout n (project s)) = firstLayout (project s)"
    by (simp add: removeLayout_def)
  from assms have "firstLayoutValid (removeLayout n (project s))"
    unfolding firstLayoutValid_def fl
    by (auto intro: hasLayoutNamed_removeLayout)
  with True show ?thesis
    by (simp add: gdevelop_scene_delete_def deleteLayout_def markDirty_def)
qed

lemma rename_keeps_valid:
  assumes "firstLayoutValid (project s)"
  shows "firstLayoutValid (project (snd (gdevelop_scene_rename c n now s)))"
proof (cases "hasLayout s c \<and> \<not> hasLayout s n")
  case False
  with assms show ?thesis
    by (auto simp: gdevelop_scene_rename_def renameLayout_def)
next
  case True
  define p1 where "p1 = modifyLayout c (\<lambda>l. l\<lparr>lname := n\<rparr>) (project s)"
  have f1: "firstLayout p1 = firstLayout (project s)"
    by (simp add: p1_def modifyLayout_def)
  have res: "project (snd (gdevelop_scene_rename c n now s))
           = (if firstLayout p1 = c then p1\<lparr>firstLayout := n\<rparr> else p1)"
    using True
    by (simp add: gdevelop_scene_rename_def renameLayout_def Let_def markDirty_def p1_def)
  show ?thesis
  proof (cases "firstLayout p1 = c")
    case True
    have "hasLayoutNamed p1 n"
      unfolding p1_def using \<open>hasLayout s c \<and> \<not> hasLayout s n\<close>
      by (auto simp: hasLayout_def intro: hasLayoutNamed_rename_new)
    then have "firstLayoutValid (p1\<lparr>firstLayout := n\<rparr>)"
      by (simp add: firstLayoutValid_def hasLayoutNamed_def)
    with res True show ?thesis by simp
  next
    case False
    with assms f1 have "firstLayoutValid p1"
      unfolding firstLayoutValid_def p1_def
      by (auto intro: hasLayoutNamed_rename_other)
    with res False show ?thesis by simp
  qed
qed

lemma step_keeps_valid:
  assumes "firstLayoutValid (project s)"
    and "\<And>n. m = SceneDelete n \<Longrightarrow> n \<noteq> firstLayout (project s)"
  shows "firstLayoutValid (project (step now m s))"
  using assms
  by (cases m)
     (simp_all add: create_keeps_valid delete_keeps_valid rename_keeps_valid settings_keeps_valid)

section \<open>Facts about scenes reached by name\<close>

lemma update_first_fixed:
  "find P xs = Some x \<Longrightarrow> f x = x \<Longrightarrow> update_first P f xs = xs"
  by (induction xs) (auto split: if_splits)

lemma find_update_first:
  "(\<And>x. P (f x) = P x) \<Longrightarrow> find P (update_first P f xs) = map_option f (find P xs)"
  by (induction xs) auto

lemma map_update_first_frame:
  "(\<And>x. g (f x) = g x) \<Longrightarrow> map g (update_first P f xs) = map g xs"
  by (induction xs) auto

lemma getLayout_Inr_iff:
  "getLayout s n = Inr l \<longleftrightarrow> find (\<lambda>l. lname l = n) (layouts (project s)) = Some l"
proof -
  have "hasLayout s n \<longleftrightarrow> find (\<lambda>l. lname l = n) (layouts (project s)) \<noteq> None"
    by (auto simp: hasLayout_def hasLayoutNamed_def find_None_iff)
  then show ?thesis
    by (auto simp: getLayout_def split: option.splits)
qed

lemma getLayout_modifyLayout:
  assumes "getLayout s n = Inr l" and "\<And>x. lname (f x) = lname x"
  shows "getLayout (s\<lparr>project := modifyLayout n f (project s)\<rparr>) n = Inr (f l)"
  using assms
  by (simp add: getLayout_Inr_iff modifyLayout_def find_update_first)

section \<open>Facts about the batch loop\<close>

lemma batchLoop_eq:
  "batchLoop so go ds acc =
     (fst acc @ map placedInstance (filter (objectKnown so go) ds),
      snd acc @ map (itemEntry so go) ds)"
  by (induction ds arbitrary: acc) (auto simp: objectKnown_def itemEntry_def)

lemma succeeded_itemEntry: "succeeded (itemEntry so go d) = objectKnown so go d"
  by (simp add: itemEntry_def)

lemma succeeded_comp_itemEntry: "succeeded \<circ> itemEntry so go = objectKnown so go"
  by (simp add: fun_eq_iff succeeded_itemEntry)

lemma instance_batch_eq:
  assumes "getLayout s sceneName = Inr l"
  shows "gdevelop_instance_batch sceneName ds now s =
     (Inr (map (itemEntry (objects l) (globalObjects (project s))) ds,
           length (filter (objectKnown (objects l) (globalObjects (project s))) ds)),
      markDirty now
        (s\<lparr>project := modifyLayout sceneName
             (\<lambda>l'. l'\<lparr>instances := instances l
                  @ map placedInstance (filter (objectKnown (objects l) (globalObjects (project s))) ds)\<rparr>)
             (project s)\<rparr>))"
  using assms
  by (simp add: gdevelop_instance_batch_def batchLoop_eq succeeded_comp_itemEntry)

lemma instancesOf_markDirty: "instancesOf (markDirty now s) n = instancesOf s n"
  by (simp add: instancesOf_def getLayout_def hasLayout_def markDirty_def)

lemma instancesOf_after_batch:
  assumes "getLayout s sceneName = Inr l"
  shows "instancesOf (snd (gdevelop_instance_batch sceneName ds now s)) sceneName =
         instancesOf s sceneName
         @ map placedInstance (filter (objectKnown (objects l) (globalObjects (project s))) ds)"
proof -
  have "getLayout (s\<lparr>project := modifyLayout sceneName
             (\<lambda>l'. l'\<lparr>instances := instances l
                  @ map placedInstance (filter (objectKnown (objects l) (globalObjects (project s))) ds)\<rparr>)
             (project s)\<rparr>) sceneName
        = Inr (l\<lparr>instances := instances l
                  @ map placedInstance (filter (objectKnown (objects l) (globalObjects (project s))) ds)\<rparr>)"
    by (rule getLayout_modifyLayout [OF assms]) simp
  then show ?thesis
    using assms
    by (simp add: instance_batch_eq instancesOf_markDirty) (simp add: instancesOf_def)
qed

section \<open>Facts about the listing of events\<close>





section \<open>Facts about creating an event and reading it back\<close>











section \<open>Closing all sessions\<close>

lemma putSession_head:
  "k \<notin> set (map fst rest) \<Longrightarrow> putSession k s ((k, s) # rest) = (k, s) # rest"
proof -
  assume "k \<notin> set (map fst rest)"
  then have "map (\<lambda>kv. if fst kv = k then (k, s) else kv) rest = rest"
    by (induction rest) auto
  then show ?thesis by (simp add: putSession_def)
qed

lemma deleteSession_head:
  "k \<notin> set (map fst rest) \<Longrightarrow> deleteSession k ((k, s) # rest) = rest"
  by (auto simp: deleteSession_def filter_id_conv)

lemma save_failure_keeps_session:
  "save env savePath s w = (Inl e, s1, w1) \<Longrightarrow> s1 = s"
  by (auto simp: save_def Let_def split: prod.splits option.splits)

lemma closeSession_head:
  assumes "k \<notin> set (map fst rest)"
  shows "closeSession env k saveFirst ((k, s) # rest, w) =
     (if saveFirst \<and> dirty s
      then (case save env None s w of
              (Inl e, s1, w1) \<Rightarrow> (Inl e, (k, s) # rest, w1)
            | (Inr p, s1, w1) \<Rightarrow> (Inr True, rest, w1))
      else (Inr True, rest, w))"
proof (cases "saveFirst \<and> dirty s")
  case False
  then show ?thesis
    using assms by (auto simp: closeSession_def isDirty_def deleteSession_head)
next
  case True
  obtain r s1 w1 where sv: "save env None s w = (r, s1, w1)"
    by (cases "save env None s w")
  show ?thesis
  proof (cases r)
    case (Inl e)
    with sv have "s1 = s" by (auto dest: save_failure_keeps_session)
    with True sv Inl assms show ?thesis
      by (simp add: closeSession_def isDirty_def putSession_head)
  next
    case (Inr p)
    with True sv assms show ?thesis
      by (simp add: closeSession_def isDirty_def deleteSession_head)
  qed
qed

lemma closeSession_head_plain:
  "k \<notin> set (map fst rest) \<Longrightarrow> \<not> (saveFirst \<and> dirty s) \<Longrightarrow>
   closeSession env k saveFirst ((k, s) # rest, w) = (Inr True, rest, w)"
proof -
  assume fresh: "k \<notin> set (map fst rest)" and no: "\<not> (saveFirst \<and> dirty s)"
  show ?thesis
    unfolding closeSession_head [OF fresh] using no by (rule if_not_P)
qed

lemma closeSession_head_saved:
  "k \<notin> set (map fst rest) \<Longrightarrow> saveFirst \<Longrightarrow> dirty s \<Longrightarrow>
   save env None s w = (Inr p, s1, w1) \<Longrightarrow>
   closeSession env k saveFirst ((k, s) # rest, w) = (Inr True, rest, w1)"
  using closeSession_head [of k rest env saveFirst s w] by simp

lemma closeSession_head_failed:
  "k \<notin> set (map fst rest) \<Longrightarrow> saveFirst \<Longrightarrow> dirty s \<Longrightarrow>
   save env None s w = (Inl e, s1, w1) \<Longrightarrow>
   closeSession env k saveFirst ((k, s) # rest, w) = (Inl e, (k, s) # rest, w1)"
  using closeSession_head [of k rest env saveFirst s w] by simp

text \<open>The head of the registry either closes, leaving a world, or its save raises.\<close>

lemma closeSession_head_cases:
  assumes "k \<notin> set (map fst rest)"
  obtains (closed) w1 where
      "\<And>xs. k \<notin> set (map fst xs) \<Longrightarrow>
         closeSession env k saveFirst ((k, s) # xs, w) = (Inr True, xs, w1)"
    | (failed) e s1 w1 where "saveFirst" "dirty s" "save env None s w = (Inl e, s1, w1)"
        "\<And>xs. k \<notin> set (map fst xs) \<Longrightarrow>
           closeSession env k saveFirst ((k, s) # xs, w) = (Inl e, (k, s) # xs, w1)"
proof (cases "saveFirst \<and> dirty s")
  case False
  then have "closeSession env k saveFirst ((k, s) # xs, w) = (Inr True, xs, w)"
    if "k \<notin> set (map fst xs)" for xs
    using that by (rule closeSession_head_plain [rotated])
  then show ?thesis by (rule closed)
next
  case True
  obtain r1 s1 w1 where sv: "save env None s w = (r1, s1, w1)"
    by (cases "save env None s w")
  show ?thesis
  proof (cases r1)
    case (Inl e)
    with sv have sv': "save env None s w = (Inl e, s1, w1)" by simp
    have "closeSession env k saveFirst ((k, s) # xs, w) = (Inl e, (k, s) # xs, w1)"
      if "k \<notin> set (map fst xs)" for xs
      using that True sv' by (intro closeSession_head_failed) simp_all
    with True sv' show ?thesis by (intro failed) simp_all
  next
    case (Inr p)
    with sv have sv': "save env None s w = (Inr p, s1, w1)" by simp
    have "closeSession env k saveFirst ((k, s) # xs, w) = (Inr True, xs, w1)"
      if "k \<notin> set (map fst xs)" for xs
      using that True sv' by (intro closeSession_head_saved) simp_all
    then show ?thesis by (rule closed)
  qed
qed

lemma closeLoop_normal_return:
  "distinct (map fst reg) \<Longrightarrow> closeLoop env saveFirst (map fst reg) (reg, w) = (Inr u, reg', w') \<Longrightarrow>
   reg' = []"
proof (induction reg arbitrary: w)
  case Nil
  then show ?case by auto
next
  case (Cons kv rest)
  obtain k s where kv: "kv = (k, s)" by (cases kv)
  from Cons.prems(1) kv have fresh: "k \<notin> set (map fst rest)" and d: "distinct (map fst rest)"
    by simp_all
  from fresh show ?case
  proof (cases rule: closeSession_head_cases [where env = env and saveFirst = saveFirst and s = s and w = w])
    case (closed w1)
    from closed [OF fresh] Cons.prems(2) kv
    have "closeLoop env saveFirst (map fst rest) (rest, w1) = (Inr u, reg', w')"
      by simp
    from Cons.IH [OF d this] show ?thesis .
  next
    case (failed e s1 w1)
    from failed(4) [OF fresh] Cons.prems(2) kv show ?thesis by simp
  qed
qed

lemma closeLoop_prefix:
  "distinct (map fst (pre @ rest)) \<Longrightarrow>
   closeLoop env saveFirst (map fst pre) (pre, w) = (Inr (), [], w0) \<Longrightarrow>
   closeLoop env saveFirst (map fst pre @ ks) (pre @ rest, w) = closeLoop env saveFirst ks (rest, w0)"
proof (induction pre arbitrary: w)
  case Nil
  then show ?case by simp
next
  case (Cons kv pre)
  obtain k s where kv: "kv = (k, s)" by (cases kv)
  from Cons.prems(1) kv have fresh1: "k \<notin> set (map fst pre)"
    and fresh2: "k \<notin> set (map fst (pre @ rest))"
    and d: "distinct (map fst (pre @ rest))"
    by simp_all
  from fresh1 show ?case
  proof (cases rule: closeSession_head_cases [where env = env and saveFirst = saveFirst and s = s and w = w])
    case (closed w1)
    from closed [OF fresh1] Cons.prems(2) kv
    have "closeLoop env saveFirst (map fst pre) (pre, w1) = (Inr (), [], w0)"
      by simp
    from Cons.IH [OF d this] closed [OF fresh2] kv show ?thesis by simp
  next
    case (failed e s1 w1)
    from failed(4) [OF fresh1] Cons.prems(2) kv show ?thesis by simp
  qed
qed

lemma closeLoop_failed_save:
  assumes "distinct (map fst (pre @ (k, s) # post))"
    and "closeLoop env True (map fst pre) (pre, w) = (Inr (), [], w0)"
    and "dirty s" and "save env None s w0 = (Inl e, s1, w1)"
  shows "closeLoop env True (map fst (pre @ (k, s) # post)) (pre @ (k, s) # post, w)
           = (Inl e, (k, s) # post, w1)"
proof -
  from assms(1) have fresh: "k \<notin> set (map fst post)"
    by simp
  have "closeLoop env True (map fst pre @ k # map fst post) (pre @ (k, s) # post, w)
          = closeLoop env True (k # map fst post) ((k, s) # post, w0)"
    by (rule closeLoop_prefix [OF assms(1) assms(2)])
  also have "\<dots> = (Inl e, (k, s) # post, w1)"
    using closeSession_head_failed [OF fresh _ assms(3) assms(4), of True] by simp
  finally show ?thesis by simp
qed

lemma closeLoop_raised:
  "distinct (map fst reg) \<Longrightarrow> closeLoop env saveFirst (map fst reg) (reg, w) = (Inl e, reg', w') \<Longrightarrow>
   saveFirst \<and>
   (\<exists>pre k s post w0 s1. reg = pre @ (k, s) # post \<and> reg' = (k, s) # post \<and> dirty s
      \<and> closeLoop env saveFirst (map fst pre) (pre, w) = (Inr (), [], w0)
      \<and> save env None s w0 = (Inl e, s1, w'))"
proof (induction reg arbitrary: w)
  case Nil
  then show ?case by simp
next
  case (Cons kv rest)
  obtain k s where kv: "kv = (k, s)" by (cases kv)
  from Cons.prems(1) kv have fresh: "k \<notin> set (map fst rest)" and d: "distinct (map fst rest)"
    by simp_all
  from fresh show ?case
  proof (cases rule: closeSession_head_cases [where env = env and saveFirst = saveFirst and s = s and w = w])
    case (closed w1)
    from closed [OF fresh] Cons.prems(2) kv
    have tail: "closeLoop env saveFirst (map fst rest) (rest, w1) = (Inl e, reg', w')"
      by simp
    from Cons.IH [OF d tail] obtain pre k' s' post w0 s1 where
      sf: "saveFirst" and reg: "rest = pre @ (k', s') # post" and reg': "reg' = (k', s') # post"
      and ds: "dirty s'"
      and lp: "closeLoop env saveFirst (map fst pre) (pre, w1) = (Inr (), [], w0)"
      and sv: "save env None s' w0 = (Inl e, s1, w')"
      by blast
    from reg fresh have "k \<notin> set (map fst pre)" by auto
    from closed [OF this] lp
    have "closeLoop env saveFirst (map fst ((k, s) # pre)) ((k, s) # pre, w) = (Inr (), [], w0)"
      by simp
    moreover have "kv # rest = ((k, s) # pre) @ (k', s') # post"
      using reg kv by simp
    ultimately show ?thesis
      using sf reg' ds sv by blast
  next
    case (failed e1 s1 w1)
    from failed(4) [OF fresh] Cons.prems(2) kv
    have "e = e1" "reg' = (k, s) # rest" "w' = w1"
      by simp_all
    moreover have "closeLoop env saveFirst (map fst []) ([], w) = (Inr (), [], w)"
      by simp
    moreover have "kv # rest = [] @ (k, s) # rest"
      using kv by simp
    ultimately show ?thesis
      using failed(1,2,3) by blast
  qed
qed

lemma closeLoop_without_save:
  "distinct (map fst reg) \<Longrightarrow> closeLoop env False (map fst reg) (reg, w) = (Inr (), [], w)"
proof (induction reg)
  case Nil
  then show ?case by simp
next
  case (Cons ks rest)
  obtain k s where ks: "ks = (k, s)" by (cases ks)
  from Cons.prems ks have fresh: "k \<notin> set (map fst rest)" and d: "distinct (map fst rest)"
    by simp_all
  from closeSession_head [OF fresh, of env False s w] Cons.IH [OF d] ks
  show ?case by simp
qed

text \<open>
  C1, as the code has it. For every registry (a \<^verbatim>\<open>Map\<close>, so its keys are distinct)
  and every save flag, \<open>closeAllSessions\<close> closes the live sessions in the order of the
  registry. Without the save flag it closes every session, and whenever it returns
  normally no session remains registered. A failure raised while saving a dirty session
  is not caught: when the sessions before a dirty session close normally and the save of
  that session then raises, \<open>closeAllSessions\<close> raises that failure, the sessions before
  it have been closed, and the failing session and all sessions after it remain registered
  in the world the failed save left. This is the only way in which the call raises.
\<close>

theorem closeAllSessions_outcome:
  assumes "distinct (map fst reg)"
  shows "closeAllSessions env False (reg, w) = (Inr (), [], w) \<and>
     (\<forall>u reg' w'. closeAllSessions env saveFirst (reg, w) = (Inr u, reg', w') \<longrightarrow> reg' = []) \<and>
     (\<forall>pre k s post w0 e s1 w1.
        reg = pre @ (k, s) # post
        \<and> closeAllSessions env True (pre, w) = (Inr (), [], w0)
        \<and> dirty s \<and> save env None s w0 = (Inl e, s1, w1) \<longrightarrow>
        closeAllSessions env True (reg, w) = (Inl e, (k, s) # post, w1)) \<and>
     (\<forall>e reg' w'. closeAllSessions env saveFirst (reg, w) = (Inl e, reg', w') \<longrightarrow>
        saveFirst \<and>
        (\<exists>pre k s post w0 s1. reg = pre @ (k, s) # post \<and> reg' = (k, s) # post \<and> dirty s
           \<and> closeAllSessions env True (pre, w) = (Inr (), [], w0)
           \<and> save env None s w0 = (Inl e, s1, w')))"
proof (intro conjI allI impI)
  show "closeAllSessions env False (reg, w) = (Inr (), [], w)"
    using closeLoop_without_save [OF assms] by (simp add: closeAllSessions_def)
next
  fix u reg' w'
  assume "closeAllSessions env saveFirst (reg, w) = (Inr u, reg', w')"
  then have "closeLoop env saveFirst (map fst reg) (reg, w) = (Inr u, reg', w')"
    by (simp add: closeAllSessions_def)
  from closeLoop_normal_return [OF assms this] show "reg' = []" .
next
  fix pre k s post w0 e s1 w1
  assume a: "reg = pre @ (k, s) # post
        \<and> closeAllSessions env True (pre, w) = (Inr (), [], w0)
        \<and> dirty s \<and> save env None s w0 = (Inl e, s1, w1)"
  then have reg: "reg = pre @ (k, s) # post"
    and lp: "closeLoop env True (map fst pre) (pre, w) = (Inr (), [], w0)"
    and ds: "dirty s" and sv: "save env None s w0 = (Inl e, s1, w1)"
    by (simp_all add: closeAllSessions_def)
  from assms reg have d: "distinct (map fst (pre @ (k, s) # post))" by simp
  from closeLoop_failed_save [OF d lp ds sv] reg
  show "closeAllSessions env True (reg, w) = (Inl e, (k, s) # post, w1)"
    by (simp add: closeAllSessions_def)
next
  fix e reg' w'
  assume "closeAllSessions env saveFirst (reg, w) = (Inl e, reg', w')"
  then have l: "closeLoop env saveFirst (map fst reg) (reg, w) = (Inl e, reg', w')"
    by (simp add: closeAllSessions_def)
  from closeLoop_raised [OF assms l] have sf: "saveFirst" by simp
  then show "saveFirst" .
  from closeLoop_raised [OF assms l] sf
  show "\<exists>pre k s post w0 s1. reg = pre @ (k, s) # post \<and> reg' = (k, s) # post \<and> dirty s
           \<and> closeAllSessions env True (pre, w) = (Inr (), [], w0)
           \<and> save env None s w0 = (Inl e, s1, w')"
    by (simp add: closeAllSessions_def)
qed

theorem closeAllSessions_outcome_witness:
  "distinct (map fst demoRegistry) \<and>
   demoRegistry = [(''a'', sessionA)] @ (''b'', sessionB) # [(''c'', sessionC)] \<and>
   closeAllSessions diskIO True ([(''a'', sessionA)], demoDisk)
     = (Inr (), [], demoDisk\<lparr>files := [(''/games/a.json'', project sessionA)]\<rparr>) \<and>
   dirty sessionB \<and>
   save diskIO None sessionB (demoDisk\<lparr>files := [(''/games/a.json'', project sessionA)]\<rparr>)
     = (Inl (IOFailure ''EACCES''), sessionB,
        demoDisk\<lparr>files := [(''/games/a.json'', project sessionA)]\<rparr>) \<and>
   closeAllSessions diskIO False (demoRegistry, demoDisk) = (Inr (), [], demoDisk) \<and>
   closeAllSessions diskIO True (demoRegistry, demoDisk)
     = (Inl (IOFailure ''EACCES''), (''b'', sessionB) # [(''c'', sessionC)],
        demoDisk\<lparr>files := [(''/games/a.json'', project sessionA)]\<rparr>)"
proof -
  have d: "distinct (map fst demoRegistry)"
    by (simp add: demoRegistry_def)
  have r: "demoRegistry = [(''a'', sessionA)] @ (''b'', sessionB) # [(''c'', sessionC)]"
    by (simp add: demoRegistry_def)
  have p: "closeAllSessions diskIO True ([(''a'', sessionA)], demoDisk)
     = (Inr (), [], demoDisk\<lparr>files := [(''/games/a.json'', project sessionA)]\<rparr>)"
    by code_simp
  have ds: "dirty sessionB"
    by (simp add: sessionB_def)
  have sv: "save diskIO None sessionB (demoDisk\<lparr>files := [(''/games/a.json'', project sessionA)]\<rparr>)
     = (Inl (IOFailure ''EACCES''), sessionB,
        demoDisk\<lparr>files := [(''/games/a.json'', project sessionA)]\<rparr>)"
    by code_simp
  note t = closeAllSessions_outcome [OF d, of diskIO demoDisk True]
  from t have a: "closeAllSessions diskIO False (demoRegistry, demoDisk) = (Inr (), [], demoDisk)"
    by (rule conjunct1)
  from t r p ds sv
  have c: "closeAllSessions diskIO True (demoRegistry, demoDisk)
     = (Inl (IOFailure ''EACCES''), (''b'', sessionB) # [(''c'', sessionC)],
        demoDisk\<lparr>files := [(''/games/a.json'', project sessionA)]\<rparr>)"
    by blast
  from d r p ds sv a c show ?thesis
    by (intro conjI)
qed

text \<open>
  So sessions can remain registered after the call: with the save flag set, the failure of
  saving the second session leaves it and the third session registered.
\<close>

theorem closeAllSessions_stops_at_failed_save:
  "map fst (fst (snd (closeAllSessions diskIO True (demoRegistry, demoDisk)))) = [''b'', ''c''] \<and>
   fst (closeAllSessions diskIO True (demoRegistry, demoDisk)) = Inl (IOFailure ''EACCES'')"
  by code_simp

section \<open>The first-scene invariant along sequences of mutations\<close>

text \<open>
  C2, as the code has it. For every session whose document satisfies the first-scene
  invariant (the identifier of the first scene is empty or names a scene of the
  document), and every sequence of scene creations, scene renames, settings updates and
  scene deletions none of which deletes the scene that is the first scene at that moment,
  the invariant holds in every session observed after a call, whether the call succeeded
  or raised.
\<close>

theorem firstLayoutValid_observed:
  "firstLayoutValid (project s) \<Longrightarrow> sparesFirstLayout cs s \<Longrightarrow>
   \<forall>t \<in> set (observed cs s). firstLayoutValid (project t)"
proof (induction cs arbitrary: s)
  case Nil
  then show ?case by simp
next
  case (Cons c cs)
  have ok: "firstLayoutValid (project (step (fst c) (snd c) s))"
    using Cons.prems by (intro step_keeps_valid) auto
  moreover have "sparesFirstLayout cs (step (fst c) (snd c) s)"
    using Cons.prems by simp
  ultimately show ?case
    using Cons.IH by simp
qed

theorem firstLayoutValid_observed_witness:
  "firstLayoutValid (project demoSession) \<and> sparesFirstLayout demoCalls demoSession \<and>
   observed demoCalls demoSession \<noteq> [] \<and>
   list_all (\<lambda>t. firstLayoutValid (project t)) (observed demoCalls demoSession)"
proof -
  have a: "firstLayoutValid (project demoSession)"
    by (simp add: firstLayoutValid_def hasLayoutNamed_def demoSession_def demoProject_def)
  have b: "sparesFirstLayout demoCalls demoSession"
    by code_simp
  have c: "observed demoCalls demoSession \<noteq> []"
    by (simp add: demoCalls_def)
  show ?thesis using a b c firstLayoutValid_observed [OF a b] by (simp add: list_all_iff)
qed

text \<open>
  Without that restriction the invariant is lost: deleting the scene that is the first
  scene succeeds and leaves the identifier naming a scene that is gone.
\<close>

theorem firstLayout_dangles_after_delete:
  "firstLayoutValid (project demoSession) \<and>
   fst (gdevelop_scene_delete ''Main'' 1 demoSession) = Inr () \<and>
   \<not> firstLayoutValid (project (snd (gdevelop_scene_delete ''Main'' 1 demoSession)))"
  by (simp add: firstLayoutValid_def hasLayoutNamed_def demoSession_def demoProject_def
      gdevelop_scene_delete_def deleteLayout_def hasLayout_def removeLayout_def markDirty_def)

section \<open>Saving a session\<close>

text \<open>
  C3. For every session, \<open>save\<close> writes the document to the existing path of the
  session, or to the new path when one is supplied (a string that is not empty), and the
  new path is then the path of the session. The dirty flag is cleared exactly when the
  write succeeds: after a successful write the session is the old one with the flag cleared
  and the target as its path, and after a failed write the session, with its dirty flag and
  its path, is unchanged and the failure is raised.
\<close>

theorem save_target_and_dirty:
  assumes "target = orElse savePath (projectPath s)"
    and "fs_saveProject env (project s) (path_basename env target) (path_dirname env target) w
           = (out, w1)"
  shows "(\<forall>p. savePath = Some p \<and> p \<noteq> [] \<longrightarrow> target = p) \<and>
     (savePath = None \<or> savePath = Some [] \<longrightarrow> target = projectPath s) \<and>
     (out = None \<longrightarrow>
        save env savePath s w = (Inr target, s\<lparr>dirty := False, projectPath := target\<rparr>, w1)) \<and>
     (\<forall>msg. out = Some msg \<longrightarrow> save env savePath s w = (Inl (IOFailure msg), s, w1))"
proof (intro conjI allI impI)
  fix p assume "savePath = Some p \<and> p \<noteq> []"
  with assms(1) show "target = p"
    by (simp add: orElse_def nonEmpty_def)
next
  assume "savePath = None \<or> savePath = Some []"
  with assms(1) show "target = projectPath s"
    by (auto simp: orElse_def nonEmpty_def)
next
  assume "out = None"
  with assms show "save env savePath s w
      = (Inr target, s\<lparr>dirty := False, projectPath := target\<rparr>, w1)"
    by (cases "nonEmpty savePath") (simp_all add: save_def orElse_def)
next
  fix msg assume "out = Some msg"
  with assms show "save env savePath s w = (Inl (IOFailure msg), s, w1)"
    by (simp add: save_def)
qed

theorem save_target_and_dirty_witness:
  "''/games/copy.json'' = orElse (Some ''/games/copy.json'') (projectPath sessionA) \<and>
   ''/games/b.json'' = orElse None (projectPath sessionB) \<and>
   save diskIO (Some ''/games/copy.json'') sessionA demoDisk
     = (Inr ''/games/copy.json'',
        sessionA\<lparr>dirty := False, projectPath := ''/games/copy.json''\<rparr>,
        demoDisk\<lparr>files := [(''/games/copy.json'', project sessionA)]\<rparr>) \<and>
   save diskIO None sessionB demoDisk = (Inl (IOFailure ''EACCES''), sessionB, demoDisk) \<and>
   dirty sessionB \<and> projectPath sessionB = ''/games/b.json''"
proof -
  have t1: "''/games/copy.json'' = orElse (Some ''/games/copy.json'') (projectPath sessionA)"
    by code_simp
  have w1: "fs_saveProject diskIO (project sessionA) (path_basename diskIO ''/games/copy.json'')
              (path_dirname diskIO ''/games/copy.json'') demoDisk
            = (None, demoDisk\<lparr>files := [(''/games/copy.json'', project sessionA)]\<rparr>)"
    by code_simp
  have t2: "''/games/b.json'' = orElse None (projectPath sessionB)"
    by code_simp
  have w2: "fs_saveProject diskIO (project sessionB) (path_basename diskIO ''/games/b.json'')
              (path_dirname diskIO ''/games/b.json'') demoDisk
            = (Some ''EACCES'', demoDisk)"
    by code_simp
  have b1: "dirty sessionB" and b2: "projectPath sessionB = ''/games/b.json''"
    by (simp_all add: sessionB_def)
  from save_target_and_dirty [OF t1 w1]
  have s1: "save diskIO (Some ''/games/copy.json'') sessionA demoDisk
     = (Inr ''/games/copy.json'',
        sessionA\<lparr>dirty := False, projectPath := ''/games/copy.json''\<rparr>,
        demoDisk\<lparr>files := [(''/games/copy.json'', project sessionA)]\<rparr>)"
    by blast
  from save_target_and_dirty [OF t2 w2]
  have s2: "save diskIO None sessionB demoDisk = (Inl (IOFailure ''EACCES''), sessionB, demoDisk)"
    by blast
  from t1 t2 s1 s2 b1 b2 show ?thesis
    by (intro conjI)
qed

section \<open>Renaming an object\<close>

lemma object_rename_layouts:
  assumes "objectsContainer s sceneName = Inr c"
    and "hasObjectNamed c cur" and "\<not> hasObjectNamed c new"
  shows "fst (gdevelop_object_rename cur new sceneName now s) = Inr (length (layouts (project s)))"
    and "map instances (layouts (project (snd (gdevelop_object_rename cur new sceneName now s))))
       = map (\<lambda>l. renameInstancesOfObject cur new (instances l)) (layouts (project s))"
proof -
  define p1 where "p1 =
     (case nonEmpty sceneName of
        Some sc \<Rightarrow>
          modifyLayout sc (\<lambda>l. l\<lparr>objects := renameObject cur new (objects l)\<rparr>) (project s)
      | None \<Rightarrow> (project s)\<lparr>globalObjects := renameObject cur new (globalObjects (project s))\<rparr>)"
  have frame: "map instances (layouts p1) = map instances (layouts (project s))"
    by (cases "nonEmpty sceneName")
       (simp_all add: p1_def modifyLayout_def map_update_first_frame)
  then have len: "length (layouts p1) = length (layouts (project s))"
    by (metis length_map)
  have call: "gdevelop_object_rename cur new sceneName now s =
     (Inr (length (layouts p1)),
      markDirty now (s\<lparr>project := p1\<lparr>layouts :=
         map (\<lambda>l. l\<lparr>instances := renameInstancesOfObject cur new (instances l)\<rparr>) (layouts p1)\<rparr>\<rparr>))"
    using assms by (simp add: gdevelop_object_rename_def p1_def Let_def)
  show "fst (gdevelop_object_rename cur new sceneName now s) = Inr (length (layouts (project s)))"
    by (simp add: call len)
  have "map instances (layouts (project (snd (gdevelop_object_rename cur new sceneName now s))))
      = map (renameInstancesOfObject cur new) (map instances (layouts p1))"
    by (simp add: call markDirty_def comp_def)
  also have "\<dots> = map (\<lambda>l. renameInstancesOfObject cur new (instances l)) (layouts (project s))"
    by (simp add: frame comp_def)
  finally show "map instances (layouts (project (snd (gdevelop_object_rename cur new sceneName now s))))
       = map (\<lambda>l. renameInstancesOfObject cur new (instances l)) (layouts (project s))" .
qed

text \<open>
  C4. For every document with \<open>N\<close> scenes and every object \<open>cur\<close> renamed to \<open>new\<close>,
  where \<open>cur\<close> exists in the addressed container (the one of the named scene, or the global
  one when no scene name is given) and \<open>new\<close> does not, the rename succeeds, keeps the
  \<open>N\<close> scenes and the number of instances of each, rewrites the object name of every
  instance of every scene whose object name was \<open>cur\<close> to \<open>new\<close>, and leaves every
  instance that references another object name unchanged.
\<close>

theorem object_rename_cascades:
  assumes "objectsContainer s sceneName = Inr c"
    and "hasObjectNamed c cur" and "\<not> hasObjectNamed c new"
  shows "\<exists>n s'.
     gdevelop_object_rename cur new sceneName now s = (Inr n, s') \<and>
     length (layouts (project s')) = length (layouts (project s)) \<and>
     (\<forall>k < length (layouts (project s)).
        length (instances (layouts (project s') ! k))
          = length (instances (layouts (project s) ! k)) \<and>
        (\<forall>j < length (instances (layouts (project s) ! k)).
           instances (layouts (project s') ! k) ! j =
             (if objectName (instances (layouts (project s) ! k) ! j) = cur
              then (instances (layouts (project s) ! k) ! j)\<lparr>objectName := new\<rparr>
              else instances (layouts (project s) ! k) ! j)))"
proof -
  let ?r = "gdevelop_object_rename cur new sceneName now s"
  let ?ls = "layouts (project s)" and ?ls' = "layouts (project (snd ?r))"
  note eqs = object_rename_layouts [OF assms, of now]
  have m: "map instances ?ls' = map (\<lambda>l. renameInstancesOfObject cur new (instances l)) ?ls"
    by (rule eqs(2))
  have len: "length ?ls' = length ?ls"
    using m by (metis length_map)
  have at: "instances (?ls' ! k) = renameInstancesOfObject cur new (instances (?ls ! k))"
    if "k < length ?ls" for k
  proof -
    have "instances (?ls' ! k) = map instances ?ls' ! k"
      using that len by simp
    also have "\<dots> = renameInstancesOfObject cur new (instances (?ls ! k))"
      using that by (simp add: m)
    finally show ?thesis .
  qed
  show ?thesis
  proof (intro exI [of _ "length ?ls"] exI [of _ "snd ?r"] conjI allI impI)
    show "?r = (Inr (length ?ls), snd ?r)"
      using eqs(1) by (cases ?r) simp
    show "length ?ls' = length ?ls" by (rule len)
  next
    fix k assume k: "k < length ?ls"
    show "length (instances (?ls' ! k)) = length (instances (?ls ! k))"
      by (simp add: at [OF k] renameInstancesOfObject_def)
    fix j assume "j < length (instances (?ls ! k))"
    then show "instances (?ls' ! k) ! j =
             (if objectName (instances (?ls ! k) ! j) = cur
              then (instances (?ls ! k) ! j)\<lparr>objectName := new\<rparr>
              else instances (?ls ! k) ! j)"
      by (simp add: at [OF k] renameInstancesOfObject_def)
  qed
qed

theorem object_rename_cascades_witness:
  "objectsContainer stagedSession None = Inr [\<lparr>oname = ''Coin'', otype = ''Sprite''\<rparr>] \<and>
   hasObjectNamed [\<lparr>oname = ''Coin'', otype = ''Sprite''\<rparr>] ''Coin'' \<and>
   \<not> hasObjectNamed [\<lparr>oname = ''Coin'', otype = ''Sprite''\<rparr>] ''Gem'' \<and>
   map (\<lambda>l. map objectName (instances l)) (layouts (project stagedSession))
     = [[''Coin'', ''Hero''], [''Coin'']] \<and>
   map (\<lambda>l. map objectName (instances l))
       (layouts (project (snd (gdevelop_object_rename ''Coin'' ''Gem'' None 3 stagedSession))))
     = [[''Gem'', ''Hero''], [''Gem'']] \<and>
   (\<exists>n s'.
     gdevelop_object_rename ''Coin'' ''Gem'' None 3 stagedSession = (Inr n, s') \<and>
     length (layouts (project s')) = length (layouts (project stagedSession)) \<and>
     (\<forall>k < length (layouts (project stagedSession)).
        length (instances (layouts (project s') ! k))
          = length (instances (layouts (project stagedSession) ! k)) \<and>
        (\<forall>j < length (instances (layouts (project stagedSession) ! k)).
           instances (layouts (project s') ! k) ! j =
             (if objectName (instances (layouts (project stagedSession) ! k) ! j) = ''Coin''
              then (instances (layouts (project stagedSession) ! k) ! j)\<lparr>objectName := ''Gem''\<rparr>
              else instances (layouts (project stagedSession) ! k) ! j))))"
proof -
  have h1: "objectsContainer stagedSession None = Inr [\<lparr>oname = ''Coin'', otype = ''Sprite''\<rparr>]"
    by code_simp
  have h2: "hasObjectNamed [\<lparr>oname = ''Coin'', otype = ''Sprite''\<rparr>] ''Coin''"
    by code_simp
  have h3: "\<not> hasObjectNamed [\<lparr>oname = ''Coin'', otype = ''Sprite''\<rparr>] ''Gem''"
    by code_simp
  have before: "map (\<lambda>l. map objectName (instances l)) (layouts (project stagedSession))
     = [[''Coin'', ''Hero''], [''Coin'']]"
    by code_simp
  have after: "map (\<lambda>l. map objectName (instances l))
       (layouts (project (snd (gdevelop_object_rename ''Coin'' ''Gem'' None 3 stagedSession))))
     = [[''Gem'', ''Hero''], [''Gem'']]"
    by code_simp
  from h1 h2 h3 before after object_rename_cascades [OF h1 h2 h3, of 3] show ?thesis
    by (intro conjI)
qed

section \<open>Batch creation of instances\<close>

text \<open>
  C5. For every batch instance-creation request on an existing scene, each item
  succeeds or fails on its own and the handler returns one entry per item, in order: the
  entry of an item depends on that item only, an item whose object is known to the scene or
  globally is created, and any other item is reported as failed with the message
  \<^verbatim>\<open>Object not found\<close> while the loop goes on. The instance container grows by the number
  of known items. In particular a batch of one known and one unknown object returns one
  success entry and one failure entry, and the container gains exactly one instance.
\<close>

theorem instance_batch_per_item:
  assumes "getLayout s sceneName = Inr l"
  shows "\<exists>results s'.
     gdevelop_instance_batch sceneName ds now s
       = (Inr (results, length (filter succeeded results)), s') \<and>
     length results = length ds \<and>
     (\<forall>k < length ds. results ! k = itemEntry (objects l) (globalObjects (project s)) (ds ! k)) \<and>
     length (instancesOf s' sceneName)
       = length (instancesOf s sceneName)
         + length (filter (objectKnown (objects l) (globalObjects (project s))) ds) \<and>
     (\<forall>a b. ds = [a, b] \<and> objectKnown (objects l) (globalObjects (project s)) a
               \<and> \<not> objectKnown (objects l) (globalObjects (project s)) b
        \<longrightarrow> results = [ItemCreated (b_objectName a) (b_x a) (b_y a),
                        ItemFailed (b_objectName b) ''Object not found'']
            \<and> length (instancesOf s' sceneName) = length (instancesOf s sceneName) + 1)"
proof -
  let ?known = "objectKnown (objects l) (globalObjects (project s))"
  let ?entry = "itemEntry (objects l) (globalObjects (project s))"
  let ?s' = "snd (gdevelop_instance_batch sceneName ds now s)"
  have call: "gdevelop_instance_batch sceneName ds now s
       = (Inr (map ?entry ds, length (filter succeeded (map ?entry ds))), ?s')"
    by (simp add: instance_batch_eq [OF assms] succeeded_comp_itemEntry)
  have insts: "length (instancesOf ?s' sceneName)
       = length (instancesOf s sceneName) + length (filter ?known ds)"
    by (simp add: instancesOf_after_batch [OF assms])
  have pair: "\<forall>a b. ds = [a, b] \<and> ?known a \<and> \<not> ?known b
        \<longrightarrow> map ?entry ds = [ItemCreated (b_objectName a) (b_x a) (b_y a),
                               ItemFailed (b_objectName b) ''Object not found'']
            \<and> length (instancesOf ?s' sceneName) = length (instancesOf s sceneName) + 1"
    using insts by (auto simp: itemEntry_def)
  show ?thesis
  proof (intro exI [of _ "map ?entry ds"] exI [of _ ?s'] conjI)
    show "gdevelop_instance_batch sceneName ds now s
       = (Inr (map ?entry ds, length (filter succeeded (map ?entry ds))), ?s')"
      by (rule call)
    show "length (map ?entry ds) = length ds" by simp
    show "\<forall>k < length ds. map ?entry ds ! k = ?entry (ds ! k)" by simp
    show "length (instancesOf ?s' sceneName)
       = length (instancesOf s sceneName) + length (filter ?known ds)"
      by (rule insts)
    show "\<forall>a b. ds = [a, b] \<and> ?known a \<and> \<not> ?known b
        \<longrightarrow> map ?entry ds = [ItemCreated (b_objectName a) (b_x a) (b_y a),
                               ItemFailed (b_objectName b) ''Object not found'']
            \<and> length (instancesOf ?s' sceneName) = length (instancesOf s sceneName) + 1"
      by (rule pair)
  qed
qed

theorem instance_batch_per_item_witness:
  "getLayout demoSession ''Main'' = Inr demoMain \<and>
   objectKnown (objects demoMain) (globalObjects (project demoSession)) heroItem \<and>
   \<not> objectKnown (objects demoMain) (globalObjects (project demoSession)) ghostItem \<and>
   (\<exists>s'. gdevelop_instance_batch ''Main'' [heroItem, ghostItem] 5 demoSession
            = (Inr ([ItemCreated ''Hero'' 10 20, ItemFailed ''Ghost'' ''Object not found''], 1), s')
        \<and> length (instancesOf s' ''Main'') = length (instancesOf demoSession ''Main'') + 1)"
proof -
  have h: "getLayout demoSession ''Main'' = Inr demoMain"
    by code_simp
  have k1: "objectKnown (objects demoMain) (globalObjects (project demoSession)) heroItem"
    by code_simp
  have k2: "\<not> objectKnown (objects demoMain) (globalObjects (project demoSession)) ghostItem"
    by code_simp
  from instance_batch_per_item [OF h, of "[heroItem, ghostItem]" 5]
  obtain results s' where
    call: "gdevelop_instance_batch ''Main'' [heroItem, ghostItem] 5 demoSession
             = (Inr (results, length (filter succeeded results)), s')"
    and pair: "\<forall>a b. [heroItem, ghostItem] = [a, b]
          \<and> objectKnown (objects demoMain) (globalObjects (project demoSession)) a
          \<and> \<not> objectKnown (objects demoMain) (globalObjects (project demoSession)) b
        \<longrightarrow> results = [ItemCreated (b_objectName a) (b_x a) (b_y a),
                        ItemFailed (b_objectName b) ''Object not found'']
            \<and> length (instancesOf s' ''Main'') = length (instancesOf demoSession ''Main'') + 1"
    by blast
  from pair k1 k2
  have res: "results = [ItemCreated (b_objectName heroItem) (b_x heroItem) (b_y heroItem),
                        ItemFailed (b_objectName ghostItem) ''Object not found'']"
    and len: "length (instancesOf s' ''Main'') = length (instancesOf demoSession ''Main'') + 1"
    by blast+
  from res have res': "results = [ItemCreated ''Hero'' 10 20, ItemFailed ''Ghost'' ''Object not found'']"
    by (simp add: heroItem_def ghostItem_def)
  from call res' len h k1 k2 show ?thesis by simp
qed

section \<open>Saving with a backup\<close>

text \<open>
  C6. For every save call that requests a prior backup, on a registered session, a
  failure of the backup step is caught (and logged as a warning) and the save runs all the
  same: the handler returns what \<open>save\<close> returns on the world that the backup attempt
  left, whether that attempt succeeded or not. Its outcome, the session and the world after
  it are those of the same call without a backup from that world; only the reported backup
  path and the warning tell the two apart.
\<close>

theorem backup_failure_tolerated:
  assumes "getSession reg sessionId = Inr s"
    and "createBackup env now s w = (b, w1)"
    and "save env savePath s w1 = (r, s1, w2)"
  shows "gdevelop_project_save env sessionId savePath True now (reg, w) =
       (map_sum id (\<lambda>p. (p, case b of Inr bp \<Rightarrow> Some bp | Inl e \<Rightarrow> None)) r,
        (case b of Inr bp \<Rightarrow> [] | Inl e \<Rightarrow> [''Failed to create backup'']),
        putSession sessionId s1 reg, w2) \<and>
     gdevelop_project_save env sessionId savePath False now (reg, w1) =
       (map_sum id (\<lambda>p. (p, None)) r, [], putSession sessionId s1 reg, w2) \<and>
     (\<forall>e p. b = Inl e \<and> r = Inr p \<longrightarrow>
        fst (gdevelop_project_save env sessionId savePath True now (reg, w)) = Inr (p, None))"
proof -
  have with_backup: "gdevelop_project_save env sessionId savePath True now (reg, w) =
       (map_sum id (\<lambda>p. (p, case b of Inr bp \<Rightarrow> Some bp | Inl e \<Rightarrow> None)) r,
        (case b of Inr bp \<Rightarrow> [] | Inl e \<Rightarrow> [''Failed to create backup'']),
        putSession sessionId s1 reg, w2)"
    using assms by (cases b; cases r) (simp_all add: gdevelop_project_save_def)
  have without: "gdevelop_project_save env sessionId savePath False now (reg, w1) =
       (map_sum id (\<lambda>p. (p, None)) r, [], putSession sessionId s1 reg, w2)"
    using assms by (cases r) (simp_all add: gdevelop_project_save_def)
  have tolerated: "\<forall>e p. b = Inl e \<and> r = Inr p \<longrightarrow>
        fst (gdevelop_project_save env sessionId savePath True now (reg, w)) = Inr (p, None)"
    by (simp add: with_backup)
  from with_backup without tolerated show ?thesis
    by (intro conjI)
qed

theorem backup_failure_tolerated_witness:
  "getSession demoRegistry ''a'' = Inr sessionA \<and>
   createBackup diskIO 42 sessionA demoDisk = (Inl (IOFailure ''ENOENT''), demoDisk) \<and>
   save diskIO None sessionA demoDisk
     = (Inr ''/games/a.json'', sessionA\<lparr>dirty := False\<rparr>,
        demoDisk\<lparr>files := [(''/games/a.json'', project sessionA)]\<rparr>) \<and>
   gdevelop_project_save diskIO ''a'' None True 42 (demoRegistry, demoDisk)
     = (Inr (''/games/a.json'', None), [''Failed to create backup''],
        putSession ''a'' (sessionA\<lparr>dirty := False\<rparr>) demoRegistry,
        demoDisk\<lparr>files := [(''/games/a.json'', project sessionA)]\<rparr>)"
proof -
  have g: "getSession demoRegistry ''a'' = Inr sessionA"
    by code_simp
  have b: "createBackup diskIO 42 sessionA demoDisk = (Inl (IOFailure ''ENOENT''), demoDisk)"
    by code_simp
  have sv: "save diskIO None sessionA demoDisk
     = (Inr ''/games/a.json'', sessionA\<lparr>dirty := False\<rparr>,
        demoDisk\<lparr>files := [(''/games/a.json'', project sessionA)]\<rparr>)"
    by code_simp
  from backup_failure_tolerated [OF g b sv]
  have h: "gdevelop_project_save diskIO ''a'' None True 42 (demoRegistry, demoDisk)
     = (Inr (''/games/a.json'', None), [''Failed to create backup''],
        putSession ''a'' (sessionA\<lparr>dirty := False\<rparr>) demoRegistry,
        demoDisk\<lparr>files := [(''/games/a.json'', project sessionA)]\<rparr>)"
    by simp
  from g b sv h show ?thesis
    by (intro conjI)
qed

section \<open>Listing events with a depth limit\<close>





section \<open>Event indices outside the list\<close>

lemma map_of_update_first_same:
  "map_of xs k = Some v \<Longrightarrow> update_first (\<lambda>kv. fst kv = k) (\<lambda>kv. (fst kv, v)) xs = xs"
  by (induction xs) (auto split: if_splits)

lemma store_same:
  assumes "resolveEventsList chk sn ex s = Inr es"
  shows "storeEventsList sn ex es s = s"
proof (cases "nonEmpty sn")
  case (Some sc)
  with assms obtain l where l: "getLayout s sc = Inr l" and e: "events l = es"
    by (cases "getLayout s sc") (auto simp: resolveEventsList_def)
  have "modifyLayout sc (\<lambda>l. l\<lparr>events := es\<rparr>) (project s) = project s"
    using l e by (simp add: getLayout_Inr_iff modifyLayout_def update_first_fixed)
  with Some show ?thesis by (simp add: storeEventsList_def)
next
  case None
  show ?thesis
  proof (cases "nonEmpty ex")
    case nx: None
    with None show ?thesis by (simp add: storeEventsList_def)
  next
    case (Some x)
    with None assms have "map_of (externalEvents (project s)) x = Some es"
      by (auto simp: resolveEventsList_def getExternalEvents_def split: if_splits option.splits)
    then have "update_first (\<lambda>kv. fst kv = x) (\<lambda>kv. (fst kv, es)) (externalEvents (project s))
             = externalEvents (project s)"
      by (rule map_of_update_first_same)
    with None Some show ?thesis by (simp add: storeEventsList_def)
  qed
qed

text \<open>
  C8. The condition-add and action-add handlers look the event up at the
  caller-supplied index without checking the index against the bounds of the event list.
  For every index outside the list, where the delete and update handlers raise the
  out-of-bounds error and leave the session alone, condition-add and action-add never raise
  that error: what they do is decided by the unguarded lookup, the first point of failure.
  If the native lookup raises, that fault is the outcome; if it hands out an event object,
  the handler goes on with it, and fails for want of an instruction list or reports success
  and marks the session dirty although no event of the list has changed.
\<close>

theorem add_handlers_skip_bounds_check:
  assumes "resolveEventsList False sn ex s = Inr es"
    and "i < 0 \<or> int (length es) \<le> i"
  shows "gdevelop_event_delete sn ex i now s = (Inl (EventIndexOutOfBounds i), s) \<and>
     gdevelop_event_update sn ex i dis fol now s = (Inl (EventIndexOutOfBounds i), s) \<and>
     fst (gdevelop_condition_add oob sn ex i ctype cparams cinv position now s)
       \<noteq> Inl (EventIndexOutOfBounds i) \<and>
     fst (gdevelop_action_add oob sn ex i atype aparams position now s)
       \<noteq> Inl (EventIndexOutOfBounds i) \<and>
     gdevelop_condition_add oob sn ex i ctype cparams cinv position now s =
       (case oob es i of
          None \<Rightarrow> (Inl LibraryFault, s)
        | Some ev \<Rightarrow>
            (case conditions ev of
               None \<Rightarrow> (Inl EventNoConditions, s)
             | Some cl \<Rightarrow>
                 (Inr (case position of Some k \<Rightarrow> k | None \<Rightarrow> int (length cl)),
                  markDirty now s))) \<and>
     gdevelop_action_add oob sn ex i atype aparams position now s =
       (case oob es i of
          None \<Rightarrow> (Inl LibraryFault, s)
        | Some ev \<Rightarrow>
            (case actions ev of
               None \<Rightarrow> (Inl EventNoActions, s)
             | Some al \<Rightarrow>
                 (Inr (case position of Some k \<Rightarrow> k | None \<Rightarrow> int (length al)),
                  markDirty now s)))"
proof -
  have out: "\<not> (0 \<le> i \<and> i < int (length es))"
    using assms(2) by auto
  have put: "putEventAt i e es = es" for e
    using out by (auto simp: putEventAt_def)
  have get: "getEventAt oob es i = (case oob es i of Some e \<Rightarrow> Inr e | None \<Rightarrow> Inl LibraryFault)"
    using out by (auto simp: getEventAt_def)
  have same: "storeEventsList sn ex es s = s"
    by (rule store_same [OF assms(1)])
  have del: "gdevelop_event_delete sn ex i now s = (Inl (EventIndexOutOfBounds i), s)"
    using assms by (auto simp: gdevelop_event_delete_def)
  have upd: "gdevelop_event_update sn ex i dis fol now s = (Inl (EventIndexOutOfBounds i), s)"
    using assms by (auto simp: gdevelop_event_update_def)
  have cond: "gdevelop_condition_add oob sn ex i ctype cparams cinv position now s =
       (case oob es i of
          None \<Rightarrow> (Inl LibraryFault, s)
        | Some ev \<Rightarrow>
            (case conditions ev of
               None \<Rightarrow> (Inl EventNoConditions, s)
             | Some cl \<Rightarrow>
                 (Inr (case position of Some k \<Rightarrow> k | None \<Rightarrow> int (length cl)),
                  markDirty now s)))"
    using assms(1)
    by (simp add: gdevelop_condition_add_def get put same Let_def split: option.splits)
  have act: "gdevelop_action_add oob sn ex i atype aparams position now s =
       (case oob es i of
          None \<Rightarrow> (Inl LibraryFault, s)
        | Some ev \<Rightarrow>
            (case actions ev of
               None \<Rightarrow> (Inl EventNoActions, s)
             | Some al \<Rightarrow>
                 (Inr (case position of Some k \<Rightarrow> k | None \<Rightarrow> int (length al)),
                  markDirty now s)))"
    using assms(1)
    by (simp add: gdevelop_action_add_def get put same Let_def split: option.splits)
  have c_ne: "fst (gdevelop_condition_add oob sn ex i ctype cparams cinv position now s)
       \<noteq> Inl (EventIndexOutOfBounds i)"
    unfolding cond by (simp split: option.splits)
  have a_ne: "fst (gdevelop_action_add oob sn ex i atype aparams position now s)
       \<noteq> Inl (EventIndexOutOfBounds i)"
    unfolding act by (simp split: option.splits)
  from del upd c_ne a_ne cond act show ?thesis
    by (intro conjI)
qed

theorem add_handlers_skip_bounds_check_witness:
  "resolveEventsList False (Some ''Main'') None eventSession = Inr demoTree \<and>
   int (length demoTree) \<le> 2 \<and>
   gdevelop_event_delete (Some ''Main'') None 2 8 eventSession
     = (Inl (EventIndexOutOfBounds 2), eventSession) \<and>
   gdevelop_event_update (Some ''Main'') None 2 (Some True) None 8 eventSession
     = (Inl (EventIndexOutOfBounds 2), eventSession) \<and>
   gdevelop_condition_add (\<lambda>es i. None) (Some ''Main'') None 2 ''KeyPressed'' ['''', ''Up''] False None 8
       eventSession
     = (Inl LibraryFault, eventSession) \<and>
   gdevelop_action_add (\<lambda>es i. Some (Event [] False False None (Some []) False []))
       (Some ''Main'') None 2 ''Delete'' [''Hero'', ''''] None 8 eventSession
     = (Inr 0, markDirty 8 eventSession)"
proof -
  have r: "resolveEventsList False (Some ''Main'') None eventSession = Inr demoTree"
    by code_simp
  have b: "int (length demoTree) \<le> 2"
    by (simp add: demoTree_def)
  then have o: "(2::int) < 0 \<or> int (length demoTree) \<le> 2"
    by simp
  note t1 = add_handlers_skip_bounds_check [OF r o, of 8 "Some True" None "\<lambda>es i. None"
      "''KeyPressed''" "['''', ''Up'']" False None "''Delete''" "[''Hero'', '''']"]
  note t2 = add_handlers_skip_bounds_check [OF r o, of 8 "Some True" None
      "\<lambda>es i. Some (Event [] False False None (Some []) False [])"
      "''KeyPressed''" "['''', ''Up'']" False None "''Delete''" "[''Hero'', '''']"]
  from r b t1 t2 show ?thesis
    by simp
qed

section \<open>Renaming a scene to its own name\<close>

text \<open>
  C9. For every session and every scene name \<open>N\<close> present in the document, renaming
  the scene \<open>N\<close> to the same name \<open>N\<close> fails with the duplicate-name error, because the
  check of the new name runs before anything exempts a self-rename, and the session with
  its document is left as it was.
\<close>

theorem renameLayout_same_name:
  "hasLayout s n \<Longrightarrow> renameLayout n n now s = (Inl (LayoutExists n), s)"
  by (simp add: renameLayout_def)

theorem renameLayout_same_name_witness:
  "hasLayout demoSession ''Main'' \<and>
   renameLayout ''Main'' ''Main'' 7 demoSession = (Inl (LayoutExists ''Main''), demoSession)"
proof -
  have h: "hasLayout demoSession ''Main''"
    by (simp add: hasLayout_def hasLayoutNamed_def demoSession_def demoProject_def)
  show ?thesis using h renameLayout_same_name [OF h, of 7] by simp
qed

section \<open>A batch in which no object is known\<close>

text \<open>
  C10. For every batch instance-creation request on an existing scene in which every
  item names an object that exists neither in the container of the scene nor globally, the
  instance container of the scene and the whole document are left unchanged, every result
  entry reports failure, and the handler still sets the dirty flag of the session and
  moves its last-modified time to the time of the call.
\<close>

theorem instance_batch_all_unknown:
  assumes "getLayout s sceneName = Inr l"
    and "\<forall>d \<in> set ds. \<not> hasObjectNamed (objects l) (b_objectName d)
                      \<and> \<not> hasGlobalObject s (b_objectName d)"
  shows "\<exists>results s'.
     gdevelop_instance_batch sceneName ds now s = (Inr (results, 0), s') \<and>
     length results = length ds \<and>
     (\<forall>r \<in> set results. \<not> succeeded r) \<and>
     instancesOf s' sceneName = instancesOf s sceneName \<and>
     project s' = project s \<and>
     dirty s' \<and> lastModifiedAt s' = now"
proof -
  let ?known = "objectKnown (objects l) (globalObjects (project s))"
  let ?entry = "itemEntry (objects l) (globalObjects (project s))"
  have none: "filter ?known ds = []"
    using assms(2) by (auto simp: filter_empty_conv objectKnown_def hasGlobalObject_def)
  have fixed: "modifyLayout sceneName (\<lambda>l'. l'\<lparr>instances := instances l\<rparr>) (project s) = project s"
    using assms(1)
    by (simp add: getLayout_Inr_iff modifyLayout_def update_first_fixed)
  have call: "gdevelop_instance_batch sceneName ds now s = (Inr (map ?entry ds, 0), markDirty now s)"
    by (simp add: instance_batch_eq [OF assms(1)] none fixed)
  have fails: "\<forall>r \<in> set (map ?entry ds). \<not> succeeded r"
    using none by (auto simp: succeeded_itemEntry filter_empty_conv)
  show ?thesis
    using call fails
    by (intro exI [of _ "map ?entry ds"] exI [of _ "markDirty now s"])
       (simp add: instancesOf_markDirty, simp add: markDirty_def)
qed

theorem instance_batch_all_unknown_witness:
  "getLayout demoSession ''Main'' = Inr demoMain \<and>
   \<not> hasObjectNamed (objects demoMain) (b_objectName ghostItem) \<and>
   \<not> hasGlobalObject demoSession (b_objectName ghostItem) \<and>
   \<not> dirty demoSession \<and>
   (\<exists>results s'.
     gdevelop_instance_batch ''Main'' [ghostItem, ghostItem] 9 demoSession = (Inr (results, 0), s') \<and>
     length results = length [ghostItem, ghostItem] \<and>
     (\<forall>r \<in> set results. \<not> succeeded r) \<and>
     instancesOf s' ''Main'' = instancesOf demoSession ''Main'' \<and>
     project s' = project demoSession \<and>
     dirty s' \<and> lastModifiedAt s' = 9)"
proof -
  have h: "getLayout demoSession ''Main'' = Inr demoMain"
    by code_simp
  have u: "\<forall>d \<in> set [ghostItem, ghostItem]. \<not> hasObjectNamed (objects demoMain) (b_objectName d)
                      \<and> \<not> hasGlobalObject demoSession (b_objectName d)"
    by code_simp
  have c: "\<not> dirty demoSession"
    by (simp add: demoSession_def)
  from u have u1: "\<not> hasObjectNamed (objects demoMain) (b_objectName ghostItem)"
    and u2: "\<not> hasGlobalObject demoSession (b_objectName ghostItem)"
    by simp_all
  from h u1 u2 c instance_batch_all_unknown [OF h u, of 9] show ?thesis
    by (intro conjI)
qed

end
